theory Spec2Isabelle
  imports Complex_Main
begin

section \<open>JavaScript values, errors and strings\<close>

text \<open>
  The application is JavaScript glue code over a hosted database, a hosted object store and
  the browser canvas. The model keeps every source function as a HOL function of the same
  name. An exception is a value \<open>Inl e\<close> of a sum type; the backend is an explicit
  \<open>world\<close> that is passed through every call; a promise that never settles is \<open>None\<close>.
  Console output is not modelled.
\<close>

datatype jsval = JUndefined | JNull | JBool bool | JNum int | JStr string

datatype error = Error (message: string)

text \<open>The value \<open>{ success: true, data }\<close> or \<open>{ success: false, error }\<close> that every
  exported function of the photo service resolves to.\<close>

datatype 'a result = Success 'a | Failure error

text \<open>Truthiness of a nullable string, and \<open>x || null\<close>.\<close>

fun truthy :: "string option \<Rightarrow> bool" where
  "truthy None = False"
| "truthy (Some s) = (s \<noteq> [])"

definition or_null :: "string option \<Rightarrow> string option" where
  "or_null x = (if truthy x then x else None)"

definition or_default :: "string option \<Rightarrow> string \<Rightarrow> string" where
  "or_default x d = (case x of None \<Rightarrow> d | Some s \<Rightarrow> if s = [] then d else s)"

text \<open>\<open>String.prototype.startsWith\<close> and \<open>String.prototype.includes\<close>.\<close>

fun startsWith :: "string \<Rightarrow> string \<Rightarrow> bool" where
  "startsWith s [] = True"
| "startsWith [] (c # cs) = False"
| "startsWith (a # s) (c # cs) = (a = c \<and> startsWith s cs)"

fun includes_str :: "string \<Rightarrow> string \<Rightarrow> bool" where
  "includes_str [] sub = (sub = [])"
| "includes_str (a # s) sub = (startsWith (a # s) sub \<or> includes_str s sub)"

text \<open>\<open>s.replace(/[:.]/g, "-")\<close>.\<close>

definition replace_colon_dot :: "string \<Rightarrow> string" where
  "replace_colon_dot s = map (\<lambda>c. if c = CHR '':'' \<or> c = CHR ''.'' then CHR ''-'' else c) s"

text \<open>\<open>s.split(",")[1]\<close>: the text between the first and the second comma, \<open>undefined\<close>
  when there is no comma.\<close>

definition split_comma_1 :: "string \<Rightarrow> string option" where
  "split_comma_1 s =
     (case dropWhile (\<lambda>c. c \<noteq> CHR '','') s of
        [] \<Rightarrow> None
      | _ # rest \<Rightarrow> Some (takeWhile (\<lambda>c. c \<noteq> CHR '','') rest))"

section \<open>Numbers and their decimal text\<close>

text \<open>
  A JavaScript Number is \<open>NaN\<close>, an infinity or a finite value; a finite value is given by
  the rational it denotes (every finite double is one), and a Number that results from
  parsing text is given by the mathematical value of that text, which JavaScript then
  rounds to the nearest double.
\<close>

datatype number = NaN | Infinity | NegInfinity | Num rat

fun isNaN :: "number \<Rightarrow> bool" where
  "isNaN NaN = True"
| "isNaN _ = False"

definition digit_char :: "nat \<Rightarrow> char" where
  "digit_char d = char_of (48 + d mod 10)"

definition digit_val :: "char \<Rightarrow> nat option" where
  "digit_val c =
     (let k = (of_char c :: nat) in if 48 \<le> k \<and> k \<le> 57 then Some (k - 48) else None)"

fun show_nat :: "nat \<Rightarrow> string" where
  "show_nat n = (if n < 10 then [digit_char n] else show_nat (n div 10) @ [digit_char (n mod 10)])"

declare show_nat.simps [simp del]

text \<open>
  \<open>Number.prototype.toFixed(f)\<close> (ECMA-262, 21.1.3.3): the integer \<open>n\<close> nearest to
  \<open>x * 10^f\<close>, the larger one on a tie, printed with \<open>f\<close> digits after the point. A value of
  magnitude \<open>10^21\<close> or more is printed by \<open>Number::toString\<close> in exponent form, which is
  the parameter \<open>big\<close>.
\<close>

definition toFixed :: "(rat \<Rightarrow> string) \<Rightarrow> number \<Rightarrow> nat \<Rightarrow> string" where
  "toFixed big v f =
     (case v of
        NaN \<Rightarrow> ''NaN''
      | Infinity \<Rightarrow> ''Infinity''
      | NegInfinity \<Rightarrow> ''-Infinity''
      | Num x \<Rightarrow>
          if \<bar>x\<bar> \<ge> 10 ^ 21 then big x
          else
            let s = (if x < 0 then ''-'' else []);
                n = nat \<lfloor>\<bar>x\<bar> * 10 ^ f + 1 / 2\<rfloor>;
                m = show_nat n;
                m = (if f \<noteq> 0 \<and> length m \<le> f then replicate (f + 1 - length m) CHR ''0'' @ m else m);
                m = (if f \<noteq> 0 then take (length m - f) m @ ''.'' @ drop (length m - f) m else m)
            in s @ m)"

section \<open>The hosted backend\<close>

text \<open>
  The columns of table \<open>photos\<close> (migrations/supabase-schema.sql and the later
  migrations). \<open>photo_fields\<close> is the object the client sends on insert; the database adds
  the \<open>BIGSERIAL\<close> key and \<open>updated_at\<close>. A column that is \<open>null\<close> (or a key that is
  \<open>undefined\<close> and so left out of the JSON body) is \<open>None\<close>.
\<close>

record photo_fields =
  lat :: "rat option"
  lng :: "rat option"
  image_data :: "string option"
  thumbnail_data :: "string option"
  storage_path :: "string option"
  timestamp :: "string option"
  filename :: "string option"
  type_col :: "string option"
  name_col :: "string option"
  description :: "string option"
  user_id :: "string option"
  created_at :: "string option"

record photo_row = photo_fields +
  id_col :: nat
  updated_at :: string

datatype assignment =
    Set_type "string option"
  | Set_name "string option"
  | Set_description "string option"
  | Set_thumbnail_data "string option"
  | Set_storage_path "string option"
  | Set_image_data "string option"

text \<open>The requests the code sends to the backend, as the SDK call chains build them. Every
  request resolves to \<open>{ data, error }\<close> (\<open>Inr data\<close> or \<open>Inl message\<close>); the SDK does not
  throw. A request and its outcome, and every wait, are appended to \<open>events\<close>.\<close>

datatype request =
    Storage_upload string string
  | Storage_remove "string list"
  | Insert_photo "photo_fields"
  | Select_storage_path nat
  | Delete_photo nat
  | Update_photo nat "assignment list"
  | Select_by_ids "nat list"
  | Select_range nat nat
  | Count_all
  | Select_to_migrate nat nat
  | Count_to_migrate

datatype event = Request request "string option" | Sleep nat

record world =
  photos :: "photo_row list"
  bucket :: "(string \<times> string) list"
  next_id :: nat
  events :: "event list"

text \<open>
  What the code cannot decide is a parameter: which requests the backend fails
  (\<open>fault_at n\<close> is the error message of the request sent when \<open>n\<close> events have happened),
  the clock, the browser's image decoder, canvas encoder and \<open>atob\<close>, and the exponent form
  of large numbers. \<open>image_size\<close> is \<open>None\<close> for a source whose \<open>onload\<close> never fires;
  \<open>canvas_jpeg src hq (w, h) q\<close> is \<open>toDataURL("image/jpeg", q)\<close> of a canvas of size
  \<open>w\<close> by \<open>h\<close> on which \<open>src\<close> was drawn at that size, \<open>hq\<close> telling whether
  \<open>imageSmoothingQuality\<close> was set to \<open>"high"\<close>. For the maintenance scripts,
  \<open>sharp_jpeg b64 (w, h, q)\<close> is the base64 text of the JPEG that the sharp pipeline
  (rotate, resize inside \<open>w\<close> by \<open>h\<close> without enlargement, quality \<open>q\<close>) makes of the
  bytes that \<open>b64\<close> decodes to, or the message of the error it throws; and
  \<open>date_toISOString t\<close> is \<open>new Date(t).toISOString()\<close>, \<open>None\<close> when it throws.
\<close>

record env =
  fault_at :: "nat \<Rightarrow> string option"
  clock :: "nat \<Rightarrow> string"
  image_size :: "string \<Rightarrow> (nat \<times> nat) option"
  canvas_jpeg :: "string \<Rightarrow> bool \<Rightarrow> rat \<times> rat \<Rightarrow> rat \<Rightarrow> string"
  atob :: "string \<Rightarrow> string option"
  number_toString :: "rat \<Rightarrow> string"
  sharp_jpeg :: "string \<Rightarrow> nat \<times> nat \<times> nat \<Rightarrow> string + string"
  date_toISOString :: "string option \<Rightarrow> string option"

definition fault :: "env \<Rightarrow> world \<Rightarrow> string option" where
  "fault env w = fault_at env (length (events w))"

definition now :: "env \<Rightarrow> world \<Rightarrow> string" where
  "now env w = clock env (length (events w))"

definition emit :: "event \<Rightarrow> world \<Rightarrow> world" where
  "emit e w = w\<lparr>events := events w @ [e]\<rparr>"

definition sleep :: "nat \<Rightarrow> world \<Rightarrow> world" where
  "sleep ms w = emit (Sleep ms) w"

text \<open>\<open>storage.from(bucket).upload(path, blob, { upsert: false })\<close>: refuses an existing
  path.\<close>

definition storage_upload :: "env \<Rightarrow> string \<Rightarrow> string \<Rightarrow> world \<Rightarrow> (string + string) \<times> world" where
  "storage_upload env path blob w =
     (case fault env w of
        Some m \<Rightarrow> (Inl m, emit (Request (Storage_upload path blob) (Some m)) w)
      | None \<Rightarrow>
          if path \<in> fst ` set (bucket w)
          then (Inl ''The resource already exists'',
                emit (Request (Storage_upload path blob) (Some ''The resource already exists'')) w)
          else (Inr path,
                emit (Request (Storage_upload path blob) None) (w\<lparr>bucket := bucket w @ [(path, blob)]\<rparr>)))"

text \<open>\<open>storage.from(bucket).remove(paths)\<close>.\<close>

definition storage_remove :: "env \<Rightarrow> string list \<Rightarrow> world \<Rightarrow> (string + unit) \<times> world" where
  "storage_remove env paths w =
     (case fault env w of
        Some m \<Rightarrow> (Inl m, emit (Request (Storage_remove paths) (Some m)) w)
      | None \<Rightarrow>
          (Inr (),
           emit (Request (Storage_remove paths) None)
             (w\<lparr>bucket := filter (\<lambda>(p, b). p \<notin> set paths) (bucket w)\<rparr>)))"

text \<open>The \<open>NOT NULL\<close> columns of the schema.\<close>

definition not_null_ok :: "photo_fields \<Rightarrow> bool" where
  "not_null_ok f = (lat f \<noteq> None \<and> lng f \<noteq> None \<and> image_data f \<noteq> None \<and> timestamp f \<noteq> None)"

definition new_row :: "photo_fields \<Rightarrow> nat \<Rightarrow> string \<Rightarrow> photo_row" where
  "new_row f i t =
     \<lparr>lat = lat f, lng = lng f, image_data = image_data f, thumbnail_data = thumbnail_data f,
      storage_path = storage_path f, timestamp = timestamp f, filename = filename f,
      type_col = type_col f, name_col = name_col f, description = description f,
      user_id = user_id f, created_at = created_at f, id_col = i, updated_at = t\<rparr>"

text \<open>\<open>from("photos").insert([f]).select()\<close>: the inserted row, or an error.\<close>

definition db_insert :: "env \<Rightarrow> photo_fields \<Rightarrow> world \<Rightarrow> (string + photo_row) \<times> world" where
  "db_insert env f w =
     (case fault env w of
        Some m \<Rightarrow> (Inl m, emit (Request (Insert_photo f) (Some m)) w)
      | None \<Rightarrow>
          if \<not> not_null_ok f
          then (Inl ''null value violates not-null constraint'',
                emit (Request (Insert_photo f) (Some ''null value violates not-null constraint'')) w)
          else let r = new_row f (next_id w) (now env w)
               in (Inr r,
                   emit (Request (Insert_photo f) None)
                     (w\<lparr>photos := photos w @ [r], next_id := Suc (next_id w)\<rparr>)))"

text \<open>\<open>from("photos").select("storage_path").eq("id", i).single()\<close>: an error unless
  exactly one row matches.\<close>

definition db_select_storage_path :: "env \<Rightarrow> nat \<Rightarrow> world \<Rightarrow> (string + string option) \<times> world" where
  "db_select_storage_path env i w =
     (case fault env w of
        Some m \<Rightarrow> (Inl m, emit (Request (Select_storage_path i) (Some m)) w)
      | None \<Rightarrow>
          (case filter (\<lambda>r. id_col r = i) (photos w) of
             [r] \<Rightarrow> (Inr (storage_path r), emit (Request (Select_storage_path i) None) w)
           | _ \<Rightarrow> (Inl ''JSON object requested, multiple (or no) rows returned'',
                   emit (Request (Select_storage_path i)
                           (Some ''JSON object requested, multiple (or no) rows returned'')) w)))"

text \<open>\<open>from("photos").delete().eq("id", i)\<close>.\<close>

definition db_delete :: "env \<Rightarrow> nat \<Rightarrow> world \<Rightarrow> (string + unit) \<times> world" where
  "db_delete env i w =
     (case fault env w of
        Some m \<Rightarrow> (Inl m, emit (Request (Delete_photo i) (Some m)) w)
      | None \<Rightarrow>
          (Inr (),
           emit (Request (Delete_photo i) None)
             (w\<lparr>photos := filter (\<lambda>r. id_col r \<noteq> i) (photos w)\<rparr>)))"

fun assign :: "assignment \<Rightarrow> photo_row \<Rightarrow> photo_row" where
  "assign (Set_type v) r = r\<lparr>type_col := v\<rparr>"
| "assign (Set_name v) r = r\<lparr>name_col := v\<rparr>"
| "assign (Set_description v) r = r\<lparr>description := v\<rparr>"
| "assign (Set_thumbnail_data v) r = r\<lparr>thumbnail_data := v\<rparr>"
| "assign (Set_storage_path v) r = r\<lparr>storage_path := v\<rparr>"
| "assign (Set_image_data v) r = r\<lparr>image_data := v\<rparr>"

text \<open>A row after \<open>UPDATE ... SET\<close>; the trigger \<open>update_photos_updated_at\<close> stamps
  \<open>updated_at\<close>.\<close>

definition updated_row :: "assignment list \<Rightarrow> string \<Rightarrow> photo_row \<Rightarrow> photo_row" where
  "updated_row as t r = (fold assign as r)\<lparr>updated_at := t\<rparr>"

fun sets_image_data_null :: "assignment \<Rightarrow> bool" where
  "sets_image_data_null (Set_image_data None) = True"
| "sets_image_data_null _ = False"

text \<open>\<open>from("photos").update(as).eq("id", i)\<close>, with or without \<open>.select()\<close>: the rows
  after the update, or an error.\<close>

definition db_update :: "env \<Rightarrow> nat \<Rightarrow> assignment list \<Rightarrow> world \<Rightarrow> (string + photo_row list) \<times> world" where
  "db_update env i as w =
     (case fault env w of
        Some m \<Rightarrow> (Inl m, emit (Request (Update_photo i as) (Some m)) w)
      | None \<Rightarrow>
          if list_ex sets_image_data_null as \<and> list_ex (\<lambda>r. id_col r = i) (photos w)
          then (Inl ''null value violates not-null constraint'',
                emit (Request (Update_photo i as) (Some ''null value violates not-null constraint'')) w)
          else (Inr (map (updated_row as (now env w)) (filter (\<lambda>r. id_col r = i) (photos w))),
                emit (Request (Update_photo i as) None)
                  (w\<lparr>photos := map (\<lambda>r. if id_col r = i then updated_row as (now env w) r else r)
                                   (photos w)\<rparr>)))"

section \<open>lib/utils: the admin gate\<close>

record metadata =
  admin :: jsval

record user =
  uid :: string
  user_metadata :: "metadata option"

definition checkAdminPermission :: "user option \<Rightarrow> bool" where
  "checkAdminPermission u =
     (case u of
        None \<Rightarrow> False
      | Some usr \<Rightarrow> (case user_metadata usr of None \<Rightarrow> False | Some m \<Rightarrow> admin m = JBool True))"

definition requireAdmin :: "user option \<Rightarrow> error + bool" where
  "requireAdmin u =
     (if \<not> checkAdminPermission u then Inl (Error ''Admin permission required for this operation'')
      else Inr True)"

section \<open>photoService\<close>

text \<open>
  Canvas sizes are computed on exact rationals where the browser computes on doubles, so
  that a rounded side can differ by one pixel when the exact product lies on a half: in
  \<open>createThumbnail\<close> an image of 145 by 1856 scales to 63 by 800 here and to 62 by 800
  in doubles. A division by a zero width or height, which is \<open>Infinity\<close> in JavaScript,
  is written out.
\<close>

definition compressImage :: "env \<Rightarrow> string \<Rightarrow> rat \<Rightarrow> rat \<Rightarrow> rat \<Rightarrow> string option" where
  "compressImage env base64Image maxWidth maxHeight quality =
     (case image_size env base64Image of
        None \<Rightarrow> None
      | Some (w0, h0) \<Rightarrow>
          let width = of_nat w0; height = of_nat h0;
              dims = (if width > height
                      then (if width > maxWidth then (maxWidth, height * maxWidth / width)
                            else (width, height))
                      else (if height > maxHeight then (width * maxHeight / height, maxHeight)
                            else (width, height)))
          in Some (canvas_jpeg env base64Image False dims quality))"

text \<open>\<open>Math.round\<close>.\<close>

definition math_round :: "rat \<Rightarrow> rat" where
  "math_round x = of_int \<lfloor>x + 1 / 2\<rfloor>"

definition createThumbnail :: "env \<Rightarrow> string \<Rightarrow> rat \<Rightarrow> rat \<Rightarrow> string option" where
  "createThumbnail env base64Image maxWidth maxHeight =
     (case image_size env base64Image of
        None \<Rightarrow> None
      | Some (w0, h0) \<Rightarrow>
          let width = of_nat w0; height = of_nat h0;
              dims = (if width > maxWidth \<or> height > maxHeight
                      then let scale = (if w0 = 0 then maxHeight / height
                                        else if h0 = 0 then maxWidth / width
                                        else min (maxWidth / width) (maxHeight / height))
                           in (math_round (width * scale), math_round (height * scale))
                      else (width, height))
          in Some (canvas_jpeg env base64Image True dims (85 / 100)))"

definition validateImageSize :: "env \<Rightarrow> string \<Rightarrow> error + bool" where
  "validateImageSize env base64Image =
     (let sizeInBytes = (of_nat (length base64Image) * 3) / 4 :: rat;
          maxSizeInMB = 2 :: rat;
          maxSizeInBytes = maxSizeInMB * 1024 * 1024
      in if sizeInBytes > maxSizeInBytes
         then Inl (Error (''Image is too large ('' @
                          toFixed (number_toString env) (Num (sizeInBytes / 1024 / 1024)) 2 @
                          ''MB). Maximum size is 2MB.''))
         else Inr True)"

text \<open>\<open>atob(base64Data.split(",")[1])\<close>; \<open>atob(undefined)\<close> decodes the text
  \<open>"undefined"\<close>. \<open>atob\<close> throws on text that is not base64.\<close>

definition base64ToBlob :: "env \<Rightarrow> string \<Rightarrow> error + string" where
  "base64ToBlob env base64Data =
     (case atob env (case split_comma_1 base64Data of None \<Rightarrow> ''undefined'' | Some s \<Rightarrow> s) of
        None \<Rightarrow> Inl (Error ''The string to be decoded is not correctly encoded.'')
      | Some byteCharacters \<Rightarrow> Inr byteCharacters)"

definition uploadOriginalImage :: "env \<Rightarrow> string \<Rightarrow> string \<Rightarrow> string \<Rightarrow> world \<Rightarrow> (error + string) \<times> world" where
  "uploadOriginalImage env base64Image fname userId w =
     (case base64ToBlob env base64Image of
        Inl e \<Rightarrow> (Inl e, w)
      | Inr blob \<Rightarrow>
          let timestamp = replace_colon_dot (now env w);
              uniqueFilename = userId @ ''/'' @ timestamp @ ''_'' @ fname
          in (case storage_upload env uniqueFilename blob w of
                (Inl m, w') \<Rightarrow> (Inl (Error m), w')
              | (Inr path, w') \<Rightarrow> (Inr path, w')))"

definition deleteOriginalImage :: "env \<Rightarrow> string \<Rightarrow> world \<Rightarrow> (error + bool) \<times> world" where
  "deleteOriginalImage env storagePath w =
     (case storage_remove env [storagePath] w of
        (Inl m, w') \<Rightarrow> (Inl (Error m), w')
      | (Inr _, w') \<Rightarrow> (Inr True, w'))"

text \<open>The argument \<open>photoData\<close> of \<open>savePhotoToDatabase\<close>; \<open>imageData\<close> is the data URL
  that the file reader produced, a string.\<close>

record photoData =
  pd_lat :: "rat option"
  pd_lng :: "rat option"
  imageData :: string
  pd_timestamp :: "string option"
  pd_filename :: "string option"
  pd_type :: "string option"
  pd_name :: "string option"
  pd_description :: "string option"

definition insert_fields :: "env \<Rightarrow> world \<Rightarrow> photoData \<Rightarrow> user \<Rightarrow> string \<Rightarrow> string \<Rightarrow> string \<Rightarrow> photo_fields" where
  "insert_fields env w pd usr compressedImage thumbnail storagePath =
     \<lparr>lat = pd_lat pd, lng = pd_lng pd,
      image_data = Some compressedImage,
      thumbnail_data = Some thumbnail,
      storage_path = Some storagePath,
      timestamp = pd_timestamp pd,
      filename = pd_filename pd,
      type_col = or_null (pd_type pd),
      name_col = or_null (pd_name pd),
      description = or_null (pd_description pd),
      user_id = Some (uid usr),
      created_at = Some (now env w)\<rparr>"

definition savePhotoToDatabase :: "env \<Rightarrow> photoData \<Rightarrow> user option \<Rightarrow> world \<Rightarrow> photo_row result option \<times> world" where
  "savePhotoToDatabase env pd u w =
     (case requireAdmin u of
        Inl e \<Rightarrow> (Some (Failure e), w)
      | Inr _ \<Rightarrow>
     (case validateImageSize env (imageData pd) of
        Inl e \<Rightarrow> (Some (Failure e), w)
      | Inr _ \<Rightarrow>
     (case u of
        None \<Rightarrow> (Some (Failure (Error ''Cannot read properties of null'')), w)
      | Some usr \<Rightarrow>
     (case uploadOriginalImage env (imageData pd) (or_default (pd_filename pd) ''photo.jpg'') (uid usr) w of
        (Inl e, w1) \<Rightarrow> (Some (Failure e), w1)
      | (Inr storagePath, w1) \<Rightarrow>
     (case compressImage env (imageData pd) 800 600 (8 / 10) of
        None \<Rightarrow> (None, w1)
      | Some compressedImage \<Rightarrow>
     (case createThumbnail env compressedImage 800 800 of
        None \<Rightarrow> (None, w1)
      | Some thumbnail \<Rightarrow>
     (case db_insert env (insert_fields env w1 pd usr compressedImage thumbnail storagePath) w1 of
        (Inl m, w2) \<Rightarrow>
          (case deleteOriginalImage env storagePath w2 of
             (_, w3) \<Rightarrow> (Some (Failure (Error m)), w3))
      | (Inr row, w2) \<Rightarrow> (Some (Success row), w2))))))))"

text \<open>The object sent on insert carries the compressed image, the thumbnail made of the
  compressed image, the path \<open>p\<close> and the coordinates of \<open>pd\<close>.\<close>

definition derived_payload :: "env \<Rightarrow> photoData \<Rightarrow> photo_fields \<Rightarrow> string \<Rightarrow> bool" where
  "derived_payload env pd f p =
     (case compressImage env (imageData pd) 800 600 (8 / 10) of
        None \<Rightarrow> False
      | Some c \<Rightarrow>
          (case createThumbnail env c 800 800 of
             None \<Rightarrow> False
           | Some t \<Rightarrow>
               image_data f = Some c \<and> thumbnail_data f = Some t \<and> storage_path f = Some p
               \<and> lat f = pd_lat pd \<and> lng f = pd_lng pd))"

text \<open>\<open>data[0]\<close> of an update is \<open>undefined\<close> when no row has the id.\<close>

definition first_row :: "photo_row list \<Rightarrow> photo_row option" where
  "first_row rows = (case rows of [] \<Rightarrow> None | r # _ \<Rightarrow> Some r)"

definition updatePhotoType :: "env \<Rightarrow> nat \<Rightarrow> string option \<Rightarrow> user option \<Rightarrow> world \<Rightarrow> photo_row option result \<times> world" where
  "updatePhotoType env photoId newType u w =
     (case requireAdmin u of
        Inl e \<Rightarrow> (Failure e, w)
      | Inr _ \<Rightarrow>
          (case db_update env photoId [Set_type newType] w of
             (Inl m, w') \<Rightarrow> (Failure (Error m), w')
           | (Inr rows, w') \<Rightarrow> (Success (first_row rows), w')))"

definition updatePhotoDetails :: "env \<Rightarrow> nat \<Rightarrow> string option \<Rightarrow> string option \<Rightarrow> user option \<Rightarrow> world \<Rightarrow> photo_row option result \<times> world" where
  "updatePhotoDetails env photoId nm descr u w =
     (case requireAdmin u of
        Inl e \<Rightarrow> (Failure e, w)
      | Inr _ \<Rightarrow>
          (case db_update env photoId [Set_name (or_null nm), Set_description (or_null descr)] w of
             (Inl m, w') \<Rightarrow> (Failure (Error m), w')
           | (Inr rows, w') \<Rightarrow> (Success (first_row rows), w')))"

definition deletePhotoFromDatabase :: "env \<Rightarrow> nat \<Rightarrow> user option \<Rightarrow> world \<Rightarrow> unit result \<times> world" where
  "deletePhotoFromDatabase env photoId u w =
     (case requireAdmin u of
        Inl e \<Rightarrow> (Failure e, w)
      | Inr _ \<Rightarrow>
          (case db_select_storage_path env photoId w of
             (fetched, w1) \<Rightarrow>
          (case db_delete env photoId w1 of
             (Inl m, w2) \<Rightarrow> (Failure (Error m), w2)
           | (Inr _, w2) \<Rightarrow>
               (case fetched of
                  Inr (Some path) \<Rightarrow>
                    if path \<noteq> []
                    then (case deleteOriginalImage env path w2 of (_, w3) \<Rightarrow> (Success (), w3))
                    else (Success (), w2)
                | _ \<Rightarrow> (Success (), w2)))))"

section \<open>scripts/regenerate-thumbnails.js\<close>

text \<open>
  generate-thumbnails.js has the same \<open>retryOperation\<close>, \<open>createThumbnail\<close>,
  \<open>updatePhotoWithThumbnail\<close> and \<open>processBatch\<close> (with quality 80 and no dry run), so
  the configuration and the dry-run flag are arguments here.
\<close>

record thumbnail_config =
  cfg_maxWidth :: nat
  cfg_maxHeight :: nat
  cfg_quality :: nat

definition THUMBNAIL_CONFIG :: thumbnail_config where
  "THUMBNAIL_CONFIG = \<lparr>cfg_maxWidth = 800, cfg_maxHeight = 800, cfg_quality = 85\<rparr>"

definition BATCH_SIZE :: nat where
  "BATCH_SIZE = 5"

definition DELAY_BETWEEN_BATCHES :: nat where
  "DELAY_BETWEEN_BATCHES = 2000"

definition MAX_RETRIES :: nat where
  "MAX_RETRIES = 3"

definition FETCH_BATCH_SIZE :: nat where
  "FETCH_BATCH_SIZE = 3"

definition isTimeout :: "error \<Rightarrow> bool" where
  "isTimeout e = (includes_str (message e) ''timeout'' \<or> includes_str (message e) ''canceling statement'')"

text \<open>
  \<open>retryOperation\<close>: the \<open>for\<close> loop from \<open>attempt\<close> on, \<open>k\<close> iterations being left
  (\<open>k = maxRetries + 1 - attempt\<close>). What it throws is \<open>Some e\<close>, or \<open>None\<close> for the
  \<open>undefined\<close> that \<open>throw lastError\<close> throws when the loop body never ran.
\<close>

fun retry_from :: "(world \<Rightarrow> (error + 'a) \<times> world) \<Rightarrow> nat \<Rightarrow> nat \<Rightarrow> error option \<Rightarrow> nat \<Rightarrow> world
    \<Rightarrow> (error option + 'a) \<times> world" where
  "retry_from operation maxRetries attempt lastError 0 w = (Inl lastError, w)"
| "retry_from operation maxRetries attempt lastError (Suc k) w =
     (case operation w of
        (Inr v, w') \<Rightarrow> (Inr v, w')
      | (Inl e, w') \<Rightarrow>
          if isTimeout e \<and> attempt < maxRetries
          then retry_from operation maxRetries (attempt + 1) (Some e) k (sleep (attempt * 2000) w')
          else (Inl (Some e), w'))"

definition retryOperation :: "(world \<Rightarrow> (error + 'a) \<times> world) \<Rightarrow> nat \<Rightarrow> world \<Rightarrow> (error option + 'a) \<times> world" where
  "retryOperation operation maxRetries w = retry_from operation maxRetries 1 None maxRetries w"

text \<open>\<open>base64Image.replace(/^data:image\/[a-z]+;base64,/, "")\<close>.\<close>

definition is_lower :: "char \<Rightarrow> bool" where
  "is_lower c = (97 \<le> (of_char c :: nat) \<and> (of_char c :: nat) \<le> 122)"

definition strip_data_url :: "string \<Rightarrow> string" where
  "strip_data_url s =
     (if startsWith s ''data:image/''
      then let rest = drop 11 s;
               letters = takeWhile is_lower rest;
               after = dropWhile is_lower rest
           in if letters \<noteq> [] \<and> startsWith after '';base64,'' then drop 8 after else s
      else s)"

text \<open>\<open>createThumbnail\<close> of the scripts; a \<open>null\<close> image throws a TypeError, whose text
  is the engine's.\<close>

definition createThumbnail_sharp :: "env \<Rightarrow> string option \<Rightarrow> thumbnail_config \<Rightarrow> error + string" where
  "createThumbnail_sharp env base64Image config =
     (case base64Image of
        None \<Rightarrow> Inl (Error ''Cannot read properties of null'')
      | Some s \<Rightarrow>
          (case sharp_jpeg env (strip_data_url s) (cfg_maxWidth config, cfg_maxHeight config, cfg_quality config) of
             Inl m \<Rightarrow> Inl (Error m)
           | Inr thumbnailBase64 \<Rightarrow> Inr (''data:image/jpeg;base64,'' @ thumbnailBase64)))"

text \<open>The rows in the order of \<open>ORDER BY created_at ASC\<close> (nulls last); timestamps are
  compared as their ISO text.\<close>

fun str_le :: "string \<Rightarrow> string \<Rightarrow> bool" where
  "str_le [] t = True"
| "str_le (a # s) [] = False"
| "str_le (a # s) (b # t) =
     ((of_char a :: nat) < of_char b \<or> (a = b \<and> str_le s t))"

definition created_le :: "photo_row \<Rightarrow> photo_row \<Rightarrow> bool" where
  "created_le r1 r2 =
     (case created_at r2 of
        None \<Rightarrow> True
      | Some t2 \<Rightarrow> (case created_at r1 of None \<Rightarrow> False | Some t1 \<Rightarrow> str_le t1 t2))"

fun insert_by_created :: "photo_row \<Rightarrow> photo_row list \<Rightarrow> photo_row list" where
  "insert_by_created r [] = [r]"
| "insert_by_created r (x # xs) = (if created_le r x then r # x # xs else x # insert_by_created r xs)"

definition order_by_created :: "photo_row list \<Rightarrow> photo_row list" where
  "order_by_created rows = foldr insert_by_created rows []"


text \<open>\<open>select(...).order("created_at", { ascending: true }).range(offset, offset + limit - 1)\<close>.\<close>

definition db_select_range :: "env \<Rightarrow> nat \<Rightarrow> nat \<Rightarrow> world \<Rightarrow> (string + photo_row list) \<times> world" where
  "db_select_range env limit offset w =
     (case fault env w of
        Some m \<Rightarrow> (Inl m, emit (Request (Select_range limit offset) (Some m)) w)
      | None \<Rightarrow>
          (Inr (take limit (drop offset (order_by_created (photos w)))),
           emit (Request (Select_range limit offset) None) w))"


record fetch_result =
  fr_photos :: "photo_row list"
  hasMore :: bool
  total :: nat


definition getAllPhotos :: "env \<Rightarrow> nat \<Rightarrow> nat \<Rightarrow> world \<Rightarrow> (error + fetch_result) \<times> world" where
  "getAllPhotos env limit offset w =
     (case db_select_range env limit offset w of
        (Inl m, w') \<Rightarrow> (Inl (Error (''Database error: '' @ m)), w')
      | (Inr ps, w') \<Rightarrow> (Inr \<lparr>fr_photos = ps, hasMore = (length ps = limit), total = length ps\<rparr>, w'))"


definition updatePhotoWithThumbnail :: "env \<Rightarrow> nat \<Rightarrow> string \<Rightarrow> world \<Rightarrow> bool \<times> world" where
  "updatePhotoWithThumbnail env photoId thumbnailData w =
     (case db_update env photoId [Set_thumbnail_data (Some thumbnailData)] w of
        (Inl m, w') \<Rightarrow> (False, w')
      | (Inr _, w') \<Rightarrow> (True, w'))"

record batch_results =
  processed :: nat
  successful :: nat
  failed :: nat
  errors :: "string list"

text \<open>
  The loop of \<open>processBatch\<close> over the photos that are left. The \<open>catch\<close> block reads
  \<open>error.message\<close>, which itself throws when the value caught is \<open>undefined\<close>; then
  \<open>processBatch\<close> throws.
\<close>

fun processBatch_from :: "env \<Rightarrow> thumbnail_config \<Rightarrow> bool \<Rightarrow> photo_row list \<Rightarrow> batch_results \<Rightarrow> world
    \<Rightarrow> (error + batch_results) \<times> world" where
  "processBatch_from env config dryRun [] results w = (Inr results, w)"
| "processBatch_from env config dryRun (photo # rest) results w =
     (if dryRun
      then processBatch_from env config dryRun rest
             (results\<lparr>successful := successful results + 1, processed := processed results + 1\<rparr>) w
      else
        (case createThumbnail_sharp env (image_data photo) config of
           Inl e \<Rightarrow>
             processBatch_from env config dryRun rest
               (results\<lparr>failed := failed results + 1,
                        errors := errors results @ [''Photo '' @ show_nat (id_col photo) @ '': '' @ message e]\<rparr>) w
         | Inr thumbnail \<Rightarrow>
             (case retryOperation
                     (\<lambda>w. case updatePhotoWithThumbnail env (id_col photo) thumbnail w of
                             (b, w') \<Rightarrow> (Inr b, w'))
                     MAX_RETRIES w of
                (Inl None, w') \<Rightarrow> (Inl (Error ''Cannot read properties of undefined''), w')
              | (Inl (Some e), w') \<Rightarrow>
                  processBatch_from env config dryRun rest
                    (results\<lparr>failed := failed results + 1,
                             errors := errors results @ [''Photo '' @ show_nat (id_col photo) @ '': '' @ message e]\<rparr>) w'
              | (Inr success, w') \<Rightarrow>
                  processBatch_from env config dryRun rest
                    ((if success
                      then results\<lparr>successful := successful results + 1\<rparr>
                      else results\<lparr>failed := failed results + 1,
                                   errors := errors results @ [''Photo '' @ show_nat (id_col photo) @ '': Update failed'']\<rparr>)
                       \<lparr>processed := processed results + 1\<rparr>) w')))"

definition processBatch :: "env \<Rightarrow> thumbnail_config \<Rightarrow> bool \<Rightarrow> photo_row list \<Rightarrow> world \<Rightarrow> (error + batch_results) \<times> world" where
  "processBatch env config dryRun batch w =
     processBatch_from env config dryRun batch \<lparr>processed = 0, successful = 0, failed = 0, errors = []\<rparr> w"

text \<open>
  The inner loop of \<open>regenerateThumbnails\<close> that cuts the fetched photos into slices of
  \<open>BATCH_SIZE\<close>, \<open>k\<close> slices being left; it waits between two slices. The field
  \<open>total\<close> of \<open>overallResults\<close> is only printed and is left out.
\<close>

fun process_batches :: "env \<Rightarrow> thumbnail_config \<Rightarrow> bool \<Rightarrow> photo_row list \<Rightarrow> nat \<Rightarrow> nat \<Rightarrow> batch_results
    \<Rightarrow> world \<Rightarrow> (error + batch_results) \<times> world" where
  "process_batches env config dryRun ps batchIndex 0 overall w = (Inr overall, w)"
| "process_batches env config dryRun ps batchIndex (Suc k) overall w =
     (let startIndex = batchIndex * BATCH_SIZE;
          endIndex = min (startIndex + BATCH_SIZE) (length ps);
          slice = take (endIndex - startIndex) (drop startIndex ps)
      in case processBatch env config dryRun slice w of
           (Inl e, w') \<Rightarrow> (Inl e, w')
         | (Inr batchResults, w') \<Rightarrow>
             process_batches env config dryRun ps (batchIndex + 1) k
               \<lparr>processed = processed overall + processed batchResults,
                successful = successful overall + successful batchResults,
                failed = failed overall + failed batchResults,
                errors = errors overall @ errors batchResults\<rparr>
               (if 0 < k then sleep DELAY_BETWEEN_BATCHES w' else w'))"

record regen_options =
  allMode :: bool
  photoIds :: "nat list"
  limit_arg :: "int option"
  dryRun_arg :: bool

text \<open>\<open>limit\<close> is \<open>null\<close>, or what \<open>parseInt\<close> made of \<open>--limit=\<close>; \<open>NaN\<close> is \<open>None\<close>
  here, being as falsy as \<open>null\<close>.\<close>

definition limit_truthy :: "int option \<Rightarrow> bool" where
  "limit_truthy l = (case l of None \<Rightarrow> False | Some n \<Rightarrow> n \<noteq> 0)"

text \<open>\<open>limit && overallResults.processed >= limit\<close>, and \<open>fetchSize\<close>.\<close>

definition limit_reached :: "regen_options \<Rightarrow> batch_results \<Rightarrow> bool" where
  "limit_reached opts overall =
     (limit_truthy (limit_arg opts) \<and>
      (case limit_arg opts of None \<Rightarrow> False | Some l \<Rightarrow> l \<le> int (processed overall)))"

definition fetchSize_of :: "regen_options \<Rightarrow> batch_results \<Rightarrow> int" where
  "fetchSize_of opts overall =
     (case limit_arg opts of
        None \<Rightarrow> int FETCH_BATCH_SIZE
      | Some l \<Rightarrow> if l \<noteq> 0 then min (int FETCH_BATCH_SIZE) (l - int (processed overall))
                  else int FETCH_BATCH_SIZE)"

text \<open>
  The \<open>while (hasMore)\<close> loop of the \<open>--all\<close> mode, with fuel; the result is the exit code
  of the process, \<open>None\<close> when the fuel ran out. Whatever is thrown inside the loop reaches
  the \<open>catch\<close> of \<open>regenerateThumbnails\<close>, which exits with code 1.
\<close>

fun all_photos_loop :: "nat \<Rightarrow> env \<Rightarrow> thumbnail_config \<Rightarrow> regen_options \<Rightarrow> nat \<Rightarrow> batch_results \<Rightarrow> world
    \<Rightarrow> nat option \<times> world" where
  "all_photos_loop 0 env config opts offset overall w = (None, w)"
| "all_photos_loop (Suc n) env config opts offset overall w =
     (if limit_reached opts overall then (Some 0, w)
      else
        (case retryOperation (getAllPhotos env (nat (fetchSize_of opts overall)) offset) MAX_RETRIES w of
           (Inl e, w') \<Rightarrow> (Some 1, w')
         | (Inr result, w') \<Rightarrow>
             if fr_photos result = [] then (Some 0, w')
             else
               (case process_batches env config (dryRun_arg opts) (fr_photos result) 0
                       ((length (fr_photos result) + BATCH_SIZE - 1) div BATCH_SIZE) overall w' of
                  (Inl e, w'') \<Rightarrow> (Some 1, w'')
                | (Inr overall', w'') \<Rightarrow>
                    if hasMore result
                    then all_photos_loop n env config opts (offset + FETCH_BATCH_SIZE) overall'
                           (sleep DELAY_BETWEEN_BATCHES w'')
                    else (Some 0, w''))))"


section \<open>The storage-migration script\<close>

text \<open>The options after argument parsing; \<open>batchSize\<close> is
  \<open>parseInt(...) || DEFAULT_BATCH_SIZE\<close>, never 0 (a negative value is not modelled).\<close>

record migration_options =
  batchSize :: nat
  mig_dryRun :: bool
  resume :: bool
  cleanup :: bool
  authEmail :: "string option"

record progress =
  processed_count :: nat
  successful_count :: nat
  failed_count :: nat
  lastProcessedId :: nat
  startTime :: string

text \<open>The progress file: absent, present but not JSON, or the progress last saved.\<close>

datatype progress_file = No_file | Unreadable | Saved progress

record machine =
  backend :: world
  progress_of :: progress_file

definition loadProgress :: "env \<Rightarrow> machine \<Rightarrow> progress" where
  "loadProgress env m =
     (case progress_of m of
        Saved p \<Rightarrow> p
      | _ \<Rightarrow> \<lparr>processed_count = 0, successful_count = 0, failed_count = 0, lastProcessedId = 0,
               startTime = now env (backend m)\<rparr>)"

definition saveProgress :: "progress \<Rightarrow> machine \<Rightarrow> machine" where
  "saveProgress p m = m\<lparr>progress_of := Saved p\<rparr>"

definition createUniqueFilename :: "env \<Rightarrow> photo_row \<Rightarrow> error + string" where
  "createUniqueFilename env photo =
     (let ts = (if truthy (timestamp photo) then timestamp photo else created_at photo)
      in case date_toISOString env ts of
           None \<Rightarrow> Inl (Error ''Invalid time value'')
         | Some dateStr \<Rightarrow>
             Inr (or_default (user_id photo) ''unknown'' @ ''/'' @ replace_colon_dot dateStr @ ''_'' @
                  or_default (filename photo) ''photo.jpg''))"

definition uploadToStorage :: "env \<Rightarrow> string \<Rightarrow> string \<Rightarrow> world \<Rightarrow> (error + string) \<times> world" where
  "uploadToStorage env base64Image fname w =
     (case base64ToBlob env base64Image of
        Inl e \<Rightarrow> (Inl (Error (''Storage upload failed: '' @ message e)), w)
      | Inr blob \<Rightarrow>
          (case storage_upload env fname blob w of
             (Inl m, w') \<Rightarrow> (Inl (Error (''Storage upload failed: '' @ m)), w')
           | (Inr path, w') \<Rightarrow> (Inr path, w')))"

definition updatePhotoStoragePath :: "env \<Rightarrow> nat \<Rightarrow> string \<Rightarrow> world \<Rightarrow> (error + bool) \<times> world" where
  "updatePhotoStoragePath env photoId storagePath w =
     (case db_update env photoId [Set_storage_path (Some storagePath)] w of
        (Inl m, w') \<Rightarrow> (Inl (Error (''Database update failed: '' @ m)), w')
      | (Inr _, w') \<Rightarrow> (Inr True, w'))"

definition cleanupBase64Data :: "env \<Rightarrow> nat \<Rightarrow> world \<Rightarrow> (error + bool) \<times> world" where
  "cleanupBase64Data env photoId w =
     (case db_update env photoId [Set_image_data None, Set_thumbnail_data None] w of
        (Inl m, w') \<Rightarrow> (Inl (Error (''Cleanup failed: '' @ m)), w')
      | (Inr _, w') \<Rightarrow> (Inr True, w'))"

text \<open>\<open>select(...).is("storage_path", null).not("image_data", "is", null).gt("id", last)
  .order("id", { ascending: true }).limit(n)\<close>.\<close>

definition db_select_to_migrate :: "env \<Rightarrow> nat \<Rightarrow> nat \<Rightarrow> world \<Rightarrow> (string + photo_row list) \<times> world" where
  "db_select_to_migrate env n lastId w =
     (case fault env w of
        Some m \<Rightarrow> (Inl m, emit (Request (Select_to_migrate n lastId) (Some m)) w)
      | None \<Rightarrow>
          (Inr (take n (sort_key id_col
                  (filter (\<lambda>r. storage_path r = None \<and> image_data r \<noteq> None \<and> lastId < id_col r)
                     (photos w)))),
           emit (Request (Select_to_migrate n lastId) None) w))"

definition db_count_to_migrate :: "env \<Rightarrow> world \<Rightarrow> (string + nat) \<times> world" where
  "db_count_to_migrate env w =
     (case fault env w of
        Some m \<Rightarrow> (Inl m, emit (Request Count_to_migrate (Some m)) w)
      | None \<Rightarrow>
          (Inr (length (filter (\<lambda>r. storage_path r = None \<and> image_data r \<noteq> None) (photos w))),
           emit (Request Count_to_migrate None) w))"

definition getPhotosToMigrate :: "env \<Rightarrow> nat \<Rightarrow> nat \<Rightarrow> world \<Rightarrow> (error + photo_row list) \<times> world" where
  "getPhotosToMigrate env n lastId w =
     (case db_select_to_migrate env n lastId w of
        (Inl m, w') \<Rightarrow> (Inl (Error (''Failed to fetch photos: '' @ m)), w')
      | (Inr data, w') \<Rightarrow> (Inr data, w'))"

definition getTotalPhotosToMigrate :: "env \<Rightarrow> world \<Rightarrow> nat \<times> world" where
  "getTotalPhotosToMigrate env w =
     (case db_count_to_migrate env w of
        (Inl m, w') \<Rightarrow> (0, w')
      | (Inr n, w') \<Rightarrow> (n, w'))"

text \<open>What \<open>processPhoto\<close> resolves to: \<open>{ success: true, skipped: true, reason }\<close>,
  \<open>{ success: true, storagePath }\<close> or \<open>{ success: false, error }\<close>.\<close>

datatype process_result = Skipped string | Migrated string | Failed string

definition processPhoto :: "env \<Rightarrow> migration_options \<Rightarrow> photo_row \<Rightarrow> world \<Rightarrow> process_result \<times> world" where
  "processPhoto env opts photo w =
     (if truthy (storage_path photo) then (Skipped ''Already migrated'', w)
      else if \<not> truthy (image_data photo) then (Skipped ''No image data'', w)
      else if mig_dryRun opts then (Skipped ''Dry run mode'', w)
      else
        (case createUniqueFilename env photo of
           Inl e \<Rightarrow> (Failed (message e), w)
         | Inr fname \<Rightarrow>
             (case uploadToStorage env (case image_data photo of None \<Rightarrow> [] | Some d \<Rightarrow> d) fname w of
                (Inl e, w1) \<Rightarrow> (Failed (message e), w1)
              | (Inr storagePath, w1) \<Rightarrow>
                  (case updatePhotoStoragePath env (id_col photo) storagePath w1 of
                     (Inl e, w2) \<Rightarrow> (Failed (message e), w2)
                   | (Inr _, w2) \<Rightarrow>
                       if cleanup opts
                       then (case cleanupBase64Data env (id_col photo) w2 of
                               (Inl e, w3) \<Rightarrow> (Failed (message e), w3)
                             | (Inr _, w3) \<Rightarrow> (Migrated storagePath, w3))
                       else (Migrated storagePath, w2)))))"

text \<open>The \<open>for (const photo of photos)\<close> loop of \<open>runMigration\<close>: the counters are the
  local variables, saved to the progress file after each photo.\<close>

fun process_photos :: "env \<Rightarrow> migration_options \<Rightarrow> photo_row list \<Rightarrow> progress \<Rightarrow> machine \<Rightarrow> progress \<times> machine" where
  "process_photos env opts [] vars m = (vars, m)"
| "process_photos env opts (photo # rest) vars m =
     (case processPhoto env opts photo (backend m) of
        (result, w') \<Rightarrow>
          let vars' = vars\<lparr>processed_count := processed_count vars + 1,
                          successful_count := (case result of Migrated _ \<Rightarrow> successful_count vars + 1
                                               | _ \<Rightarrow> successful_count vars),
                          failed_count := (case result of Failed _ \<Rightarrow> failed_count vars + 1
                                           | _ \<Rightarrow> failed_count vars),
                          lastProcessedId := id_col photo\<rparr>
          in process_photos env opts rest vars'
               (saveProgress vars' (m\<lparr>backend := w'\<rparr>)\<lparr>backend := sleep 100 w'\<rparr>))"

text \<open>One turn of the \<open>while (true)\<close> loop.\<close>

datatype 'a turn = Continue 'a | Finished 'a | Aborted 'a

definition migrate_batch :: "env \<Rightarrow> migration_options \<Rightarrow> progress \<times> machine \<Rightarrow> (progress \<times> machine) turn" where
  "migrate_batch env opts st =
     (case st of
        (vars, m) \<Rightarrow>
          (case getPhotosToMigrate env (batchSize opts) (lastProcessedId vars) (backend m) of
             (Inl e, w') \<Rightarrow> Aborted (vars, m\<lparr>backend := w'\<rparr>)
           | (Inr batch, w') \<Rightarrow>
               if batch = [] then Finished (vars, m\<lparr>backend := w'\<rparr>)
               else (case process_photos env opts batch vars (m\<lparr>backend := w'\<rparr>) of
                       (vars', m') \<Rightarrow> Continue (vars', m'\<lparr>backend := sleep 1000 (backend m')\<rparr>))))"

fun migration_loop :: "nat \<Rightarrow> env \<Rightarrow> migration_options \<Rightarrow> progress \<times> machine \<Rightarrow> (progress \<times> machine) turn option" where
  "migration_loop 0 env opts st = None"
| "migration_loop (Suc n) env opts st =
     (case migrate_batch env opts st of
        Continue st' \<Rightarrow> migration_loop n env opts st'
      | Finished st' \<Rightarrow> Some (Finished st')
      | Aborted st' \<Rightarrow> Some (Aborted st'))"

text \<open>
  \<open>runMigration\<close>: the exit code and the machine it leaves, \<open>None\<close> when the fuel ran out.
  \<open>authenticateUser\<close> always answers \<open>false\<close>; \<open>fs.unlinkSync\<close> throws when there is no
  progress file.
\<close>

definition runMigration :: "nat \<Rightarrow> env \<Rightarrow> migration_options \<Rightarrow> machine \<Rightarrow> (nat \<times> machine) option" where
  "runMigration fuel env opts m =
     (if truthy (authEmail opts) then Some (1, m)
      else
        let progress = loadProgress env m
        in (case getTotalPhotosToMigrate env (backend m) of
              (totalPhotos, w1) \<Rightarrow>
                if totalPhotos = 0 then Some (0, m\<lparr>backend := w1\<rparr>)
                else
                  (case migration_loop fuel env opts (progress, m\<lparr>backend := w1\<rparr>) of
                     None \<Rightarrow> None
                   | Some (Continue (vars, m')) \<Rightarrow> None
                   | Some (Aborted (vars, m')) \<Rightarrow> Some (1, m')
                   | Some (Finished (vars, m')) \<Rightarrow>
                       if failed_count vars = 0
                       then (case progress_of m' of
                               No_file \<Rightarrow> Some (1, m')
                             | _ \<Rightarrow> Some (0, m'\<lparr>progress_of := No_file\<rparr>))
                       else Some (0, m'))))"

text \<open>The states in which a turn of the loop can start, from the state \<open>st0\<close> before the
  first turn.\<close>

inductive turn_starts :: "env \<Rightarrow> migration_options \<Rightarrow> progress \<times> machine \<Rightarrow> progress \<times> machine \<Rightarrow> bool"
  for env opts st0 where
  first_turn: "turn_starts env opts st0 st0"
| next_turn: "turn_starts env opts st0 st \<Longrightarrow> migrate_batch env opts st = Continue st'
              \<Longrightarrow> turn_starts env opts st0 st'"

text \<open>The ids of the photos whose \<open>storage_path\<close> a list of events asks to write, in
  order: the requests that \<open>updatePhotoStoragePath\<close> sends.\<close>

fun path_updates :: "event list \<Rightarrow> nat list" where
  "path_updates [] = []"
| "path_updates (Request (Update_photo i [Set_storage_path p]) out # es) = i # path_updates es"
| "path_updates (e # es) = path_updates es"

section \<open>MapComponent: the map position in the URL\<close>

text \<open>
  The query string is the list of its name-value pairs, as \<open>URLSearchParams\<close> sees it;
  writing the pairs into the address and reading them back is the browser's.
\<close>

fun params_set :: "string \<Rightarrow> string \<Rightarrow> (string \<times> string) list \<Rightarrow> (string \<times> string) list" where
  "params_set k v [] = [(k, v)]"
| "params_set k v ((k', v') # rest) =
     (if k' = k then (k, v) # filter (\<lambda>(a, b). a \<noteq> k) rest else (k', v') # params_set k v rest)"

definition params_get :: "string \<Rightarrow> (string \<times> string) list \<Rightarrow> string option" where
  "params_get k ps = map_of ps k"

text \<open>\<open>Number.prototype.toString()\<close>: an integer below \<open>10^21\<close> prints as its digits; the
  text of any other finite value is the parameter \<open>big\<close>.\<close>

definition number_text :: "(rat \<Rightarrow> string) \<Rightarrow> number \<Rightarrow> string" where
  "number_text big v =
     (case v of
        NaN \<Rightarrow> ''NaN''
      | Infinity \<Rightarrow> ''Infinity''
      | NegInfinity \<Rightarrow> ''-Infinity''
      | Num x \<Rightarrow>
          if of_int \<lfloor>x\<rfloor> = x \<and> \<bar>x\<bar> < 10 ^ 21
          then (if x < 0 then ''-'' else []) @ show_nat (nat \<lfloor>\<bar>x\<bar>\<rfloor>)
          else big x)"

definition updateURL :: "(rat \<Rightarrow> string) \<Rightarrow> number \<Rightarrow> number \<Rightarrow> number \<Rightarrow> (string \<times> string) list
    \<Rightarrow> (string \<times> string) list" where
  "updateURL big lat_v lng_v zoom search =
     params_set ''zoom'' (number_text big zoom)
       (params_set ''lng'' (toFixed big lng_v 6)
          (params_set ''lat'' (toFixed big lat_v 6) search))"

definition is_space :: "char \<Rightarrow> bool" where
  "is_space c = ((of_char c :: nat) \<in> {9, 10, 11, 12, 13, 32})"

definition is_digit :: "char \<Rightarrow> bool" where
  "is_digit c = (digit_val c \<noteq> None)"

definition digits_val :: "string \<Rightarrow> nat" where
  "digits_val ds = foldl (\<lambda>a c. 10 * a + (case digit_val c of None \<Rightarrow> 0 | Some d \<Rightarrow> d)) 0 ds"

definition strip_sign :: "string \<Rightarrow> string" where
  "strip_sign t = (if startsWith t ''-'' \<or> startsWith t ''+'' then drop 1 t else t)"

definition exponent_part :: "string \<Rightarrow> int" where
  "exponent_part r =
     (if startsWith r ''e'' \<or> startsWith r ''E''
      then let ds = takeWhile is_digit (strip_sign (drop 1 r))
           in if ds = [] then 0
              else if startsWith (drop 1 r) ''-'' then - int (digits_val ds)
              else int (digits_val ds)
      else 0)"

definition pow10 :: "int \<Rightarrow> rat" where
  "pow10 e = (if 0 \<le> e then 10 ^ nat e else 1 / 10 ^ nat (- e))"

text \<open>
  \<open>parseFloat\<close> (ECMA-262, 19.2.4): white space is skipped, the longest prefix that is a
  decimal literal is read, and there is \<open>NaN\<close> when there is none. A missing parameter is
  \<open>null\<close>, which is read as the text \<open>"null"\<close>. White space outside ASCII is not modelled.
  The result is the exact rational that the literal denotes, where JavaScript gives the
  nearest double, \<open>Infinity\<close> on overflow and 0 on underflow.
\<close>

definition parseFloat :: "string option \<Rightarrow> number" where
  "parseFloat arg =
     (let t = dropWhile is_space (case arg of None \<Rightarrow> ''null'' | Some s \<Rightarrow> s);
          neg = startsWith t ''-'';
          t1 = strip_sign t
      in if startsWith t1 ''Infinity'' then (if neg then NegInfinity else Infinity)
         else
           let ip = takeWhile is_digit t1;
               r1 = dropWhile is_digit t1;
               fp = (if startsWith r1 ''.'' then takeWhile is_digit (drop 1 r1) else []);
               r2 = (if startsWith r1 ''.'' then dropWhile is_digit (drop 1 r1) else r1)
           in if ip = [] \<and> fp = [] then NaN
              else
                let mv = (of_nat (digits_val ip) + of_nat (digits_val fp) / 10 ^ length fp)
                           * pow10 (exponent_part r2)
                in Num (if neg then - mv else mv))"

definition hex_val :: "char \<Rightarrow> nat option" where
  "hex_val c =
     (let k = (of_char c :: nat)
      in if 48 \<le> k \<and> k \<le> 57 then Some (k - 48)
         else if 65 \<le> k \<and> k \<le> 70 then Some (k - 55)
         else if 97 \<le> k \<and> k \<le> 102 then Some (k - 87)
         else None)"

definition hex_digits_val :: "string \<Rightarrow> nat" where
  "hex_digits_val ds = foldl (\<lambda>a c. 16 * a + (case hex_val c of None \<Rightarrow> 0 | Some d \<Rightarrow> d)) 0 ds"

text \<open>\<open>parseInt\<close> without a radix (ECMA-262, 19.2.5): radix 16 after \<open>0x\<close>, else 10.\<close>

definition parseInt :: "string option \<Rightarrow> number" where
  "parseInt arg =
     (let t = dropWhile is_space (case arg of None \<Rightarrow> ''null'' | Some s \<Rightarrow> s);
          neg = startsWith t ''-'';
          t1 = strip_sign t
      in if startsWith t1 ''0x'' \<or> startsWith t1 ''0X''
         then let ds = takeWhile (\<lambda>c. hex_val c \<noteq> None) (drop 2 t1)
              in if ds = [] then NaN
                 else Num (if neg then - of_nat (hex_digits_val ds) else of_nat (hex_digits_val ds))
         else let ds = takeWhile is_digit t1
              in if ds = [] then NaN
                 else Num (if neg then - of_nat (digits_val ds) else of_nat (digits_val ds)))"

definition readURLParams :: "(string \<times> string) list \<Rightarrow> (number \<times> number \<times> number) option" where
  "readURLParams search =
     (let lat_v = parseFloat (params_get ''lat'' search);
          lng_v = parseFloat (params_get ''lng'' search);
          zoom = parseInt (params_get ''zoom'' search)
      in if \<not> isNaN lat_v \<and> \<not> isNaN lng_v \<and> \<not> isNaN zoom then Some (lat_v, lng_v, zoom) else None)"

text \<open>Rounding to six decimal places, half away from zero.\<close>

definition round6 :: "rat \<Rightarrow> rat" where
  "round6 x = (if x < 0 then - 1 else 1) * of_int \<lfloor>\<bar>x\<bar> * 10 ^ 6 + 1 / 2\<rfloor> / 10 ^ 6"

section \<open>Example inputs\<close>

text \<open>Concrete environments, users and photos at which the theorems below are
  instantiated.\<close>

definition example_env :: env where
  "example_env =
     \<lparr>fault_at = (\<lambda>n. None),
      clock = (\<lambda>n. ''2024-05-01T10:20:30.000Z''),
      image_size = (\<lambda>s. Some (1600, 1200)),
      canvas_jpeg = (\<lambda>src hq d q. (if hq then ''data:image/jpeg;base64,VEhVTUI='' else ''data:image/jpeg;base64,U01BTEw='')),
      atob = (\<lambda>s. Some s),
      number_toString = (\<lambda>x. ''1e+21''),
      sharp_jpeg = (\<lambda>b c. Inr ''VEhVTUI=''),
      date_toISOString = (\<lambda>t. Some ''2024-05-01T10:20:29.000Z'')\<rparr>"

definition empty_world :: world where
  "empty_world = \<lparr>photos = [], bucket = [], next_id = 1, events = []\<rparr>"

definition example_admin :: user where
  "example_admin = \<lparr>uid = ''u1'', user_metadata = Some \<lparr>admin = JBool True\<rparr>\<rparr>"

definition example_visitor :: user where
  "example_visitor = \<lparr>uid = ''u2'', user_metadata = Some \<lparr>admin = JStr ''true''\<rparr>\<rparr>"

definition example_photo :: photoData where
  "example_photo =
     \<lparr>pd_lat = Some (585953 / 10000), pd_lng = Some (250136 / 10000),
      imageData = ''data:image/jpeg;base64,QUJD'',
      pd_timestamp = Some ''2024-05-01T10:20:29.000Z'',
      pd_filename = Some ''find.jpg'', pd_type = Some ''target'',
      pd_name = None, pd_description = None\<rparr>"

definition insert_fails_env :: env where
  "insert_fails_env =
     example_env\<lparr>fault_at := (\<lambda>n. if n = 1 then Some ''insert failed''
                                  else if n = 2 then Some ''remove failed'' else None)\<rparr>"

definition example_payload :: photo_fields where
  "example_payload =
     \<lparr>lat = Some (585953 / 10000), lng = Some (250136 / 10000),
      image_data = Some ''data:image/jpeg;base64,U01BTEw='',
      thumbnail_data = Some ''data:image/jpeg;base64,VEhVTUI='',
      storage_path = Some ''u1/2024-05-01T10-20-30-000Z_find.jpg'',
      timestamp = Some ''2024-05-01T10:20:29.000Z'',
      filename = Some ''find.jpg'', type_col = Some ''target'',
      name_col = None, description = None, user_id = Some ''u1'',
      created_at = Some ''2024-05-01T10:20:30.000Z''\<rparr>"

definition example_row :: photo_row where
  "example_row = new_row example_payload 1 ''2024-05-01T10:20:30.000Z''"

definition huge_photo :: photoData where
  "huge_photo = example_photo\<lparr>imageData := replicate 2796203 (CHR ''a'')\<rparr>"

definition unmigrated_row :: photo_row where
  "unmigrated_row = example_row\<lparr>storage_path := None\<rparr>"

definition unmigrated_world :: world where
  "unmigrated_world = \<lparr>photos = [unmigrated_row], bucket = [], next_id = 2, events = []\<rparr>"

definition example_migration :: migration_options where
  "example_migration =
     \<lparr>batchSize = 10, mig_dryRun = False, resume = False, cleanup = False, authEmail = None\<rparr>"

definition stored_world :: world where
  "stored_world =
     \<lparr>photos = [example_row],
      bucket = [(''u1/2024-05-01T10-20-30-000Z_find.jpg'', ''QUJD'')],
      next_id = 2, events = []\<rparr>"

definition remove_fails_env :: env where
  "remove_fails_env = example_env\<lparr>fault_at := (\<lambda>n. if n = 2 then Some ''remove failed'' else None)\<rparr>"

definition timeout_env :: env where
  "timeout_env = example_env\<lparr>fault_at := (\<lambda>n. Some ''canceling statement due to statement timeout'')\<rparr>"


definition all_photos :: regen_options where
  "all_photos = \<lparr>allMode = True, photoIds = [], limit_arg = None, dryRun_arg = False\<rparr>"


definition no_results :: batch_results where
  "no_results = \<lparr>processed = 0, successful = 0, failed = 0, errors = []\<rparr>"

definition two_photo_world :: world where
  "two_photo_world =
     \<lparr>photos = [unmigrated_row\<lparr>id_col := 2\<rparr>, unmigrated_row, example_row\<lparr>id_col := 3\<rparr>],
      bucket = [], next_id = 4, events = []\<rparr>"

definition fresh_machine :: machine where
  "fresh_machine = \<lparr>backend = two_photo_world, progress_of = No_file\<rparr>"

section \<open>The admin gate comes first\<close>

lemma requireAdmin_refuses:
  assumes "u = None \<or> (\<exists>usr. u = Some usr \<and> (\<forall>m. user_metadata usr = Some m \<longrightarrow> admin m \<noteq> JBool True))"
  shows "requireAdmin u = Inl (Error ''Admin permission required for this operation'')"
proof -
  from assms have "\<not> checkAdminPermission u"
    by (auto simp: checkAdminPermission_def split: option.splits)
  then show ?thesis
    by (simp add: requireAdmin_def)
qed

text \<open>
  Claim C9. For a caller whose user object is null, or whose \<open>user_metadata.admin\<close> is
  missing or is anything but the boolean \<open>true\<close>, each of \<open>savePhotoToDatabase\<close>,
  \<open>updatePhotoType\<close>, \<open>updatePhotoDetails\<close> and \<open>deletePhotoFromDatabase\<close> returns
  \<open>success: false\<close> with the error of \<open>requireAdmin\<close>, and the world it returns is the
  world it was given: no request was sent, no row and no stored object changed.
\<close>

theorem non_admin_is_refused_without_backend_call:
  assumes "u = None \<or> (\<exists>usr. u = Some usr \<and> (\<forall>m. user_metadata usr = Some m \<longrightarrow> admin m \<noteq> JBool True))"
  shows "savePhotoToDatabase env pd u w =
           (Some (Failure (Error ''Admin permission required for this operation'')), w)
       \<and> updatePhotoType env photoId newType u w =
           (Failure (Error ''Admin permission required for this operation''), w)
       \<and> updatePhotoDetails env photoId nm descr u w =
           (Failure (Error ''Admin permission required for this operation''), w)
       \<and> deletePhotoFromDatabase env photoId u w =
           (Failure (Error ''Admin permission required for this operation''), w)"
  using requireAdmin_refuses [OF assms]
  by (simp add: savePhotoToDatabase_def updatePhotoType_def updatePhotoDetails_def
      deletePhotoFromDatabase_def)

theorem non_admin_is_refused_witness:
  "savePhotoToDatabase example_env example_photo (Some example_visitor) empty_world =
     (Some (Failure (Error ''Admin permission required for this operation'')), empty_world)
   \<and> updatePhotoType example_env 1 (Some ''coins'') (Some example_visitor) empty_world =
     (Failure (Error ''Admin permission required for this operation''), empty_world)
   \<and> updatePhotoDetails example_env 1 (Some ''Ring'') None (Some example_visitor) empty_world =
     (Failure (Error ''Admin permission required for this operation''), empty_world)
   \<and> deletePhotoFromDatabase example_env 1 (Some example_visitor) empty_world =
     (Failure (Error ''Admin permission required for this operation''), empty_world)"
proof -
  have h: "Some example_visitor = None \<or>
           (\<exists>usr. Some example_visitor = Some usr \<and>
                  (\<forall>m. user_metadata usr = Some m \<longrightarrow> admin m \<noteq> JBool True))"
    by (simp add: example_visitor_def)
  show ?thesis
    using non_admin_is_refused_without_backend_call [OF h] by blast
qed

section \<open>Saving a photo\<close>

lemma emit_fields [simp]:
  "events (emit e w) = events w @ [e]"
  "photos (emit e w) = photos w"
  "bucket (emit e w) = bucket w"
  "next_id (emit e w) = next_id w"
  by (simp_all add: emit_def)

text \<open>
  Claim C10. For an image whose text is longer than 2 MB by the estimate of
  \<open>validateImageSize\<close> (length times 3/4), \<open>savePhotoToDatabase\<close> returns
  \<open>success: false\<close> and the world it was given: nothing was uploaded, nothing inserted.
  The error is the one of the size check, unless the admin gate already refused the caller.
\<close>

theorem oversized_image_is_refused_before_any_request:
  assumes "(of_nat (length (imageData pd)) * 3) / 4 > (2 * 1024 * 1024 :: rat)"
  shows "savePhotoToDatabase env pd u w =
           (Some (Failure
              (case requireAdmin u of
                 Inl e \<Rightarrow> e
               | Inr ok \<Rightarrow>
                   Error (''Image is too large ('' @
                          toFixed (number_toString env)
                            (Num ((of_nat (length (imageData pd)) * 3) / 4 / 1024 / 1024)) 2 @
                          ''MB). Maximum size is 2MB.''))), w)"
  using assms
  by (simp add: savePhotoToDatabase_def validateImageSize_def Let_def split: sum.splits)

theorem oversized_image_witness:
  "(of_nat (length (imageData huge_photo)) * 3) / 4 > (2 * 1024 * 1024 :: rat)
   \<and> (\<exists>e. savePhotoToDatabase example_env huge_photo (Some example_admin) empty_world
            = (Some (Failure e), empty_world))"
proof -
  have h: "(of_nat (length (imageData huge_photo)) * 3) / 4 > (2 * 1024 * 1024 :: rat)"
    by (simp add: huge_photo_def)
  show ?thesis
    using h oversized_image_is_refused_before_any_request [OF h] by blast
qed

lemma uploadOriginalImage_cases:
  assumes "uploadOriginalImage env img fname userId w = (r, w1)"
  shows "(w1 = w \<and> (\<exists>e. r = Inl e))
       \<or> (\<exists>p b m. r = Inl (Error m) \<and> events w1 = events w @ [Request (Storage_upload p b) (Some m)]
                  \<and> photos w1 = photos w \<and> bucket w1 = bucket w \<and> next_id w1 = next_id w)
       \<or> (\<exists>p b. r = Inr p \<and> p \<noteq> [] \<and> events w1 = events w @ [Request (Storage_upload p b) None]
                  \<and> photos w1 = photos w \<and> bucket w1 = bucket w @ [(p, b)] \<and> next_id w1 = next_id w
                  \<and> p \<notin> fst ` set (bucket w))"
proof (cases "base64ToBlob env img")
  case (Inl e)
  have "uploadOriginalImage env img fname userId w = (Inl e, w)"
    by (simp add: uploadOriginalImage_def Inl)
  with assms have "r = Inl e" and "w1 = w" by simp_all
  then show ?thesis by blast
next
  case (Inr blob)
  with assms show ?thesis
    by (auto simp: uploadOriginalImage_def storage_upload_def Let_def
        split: option.splits if_splits)
qed

lemma deleteOriginalImage_effect:
  assumes "deleteOriginalImage env p w = (r, w')"
  shows "events w' = events w @ [Request (Storage_remove [p]) (fault env w)]
       \<and> photos w' = photos w \<and> next_id w' = next_id w
       \<and> bucket w' = (if fault env w = None then filter (\<lambda>(q, b). q \<noteq> p) (bucket w) else bucket w)"
  using assms
  by (auto simp: deleteOriginalImage_def storage_remove_def split: option.splits)

lemma db_insert_cases:
  assumes "db_insert env f w = (r, w')"
  shows "(\<exists>m. r = Inl m \<and> events w' = events w @ [Request (Insert_photo f) (Some m)]
              \<and> photos w' = photos w \<and> bucket w' = bucket w \<and> next_id w' = next_id w)
       \<or> (\<exists>row. r = Inr row \<and> row = new_row f (next_id w) (now env w) \<and> not_null_ok f
              \<and> events w' = events w @ [Request (Insert_photo f) None]
              \<and> photos w' = photos w @ [row] \<and> bucket w' = bucket w)"
  using assms
  by (auto simp: db_insert_def Let_def split: option.splits if_splits)

lemma derived_payloadD:
  assumes "derived_payload env pd f p"
  shows "storage_path f = Some p" "image_data f \<noteq> None" "thumbnail_data f \<noteq> None"
    "lat f = pd_lat pd" "lng f = pd_lng pd"
    "\<exists>c. compressImage env (imageData pd) 800 600 (8 / 10) = Some c \<and> image_data f = Some c
         \<and> thumbnail_data f = createThumbnail env c 800 800"
  using assms by (auto simp: derived_payload_def split: option.splits)

text \<open>Every run of \<open>savePhotoToDatabase\<close> is one of five: refused before any request, the
  upload fails, an image never loads, the insert fails and the upload is cleaned up, or the
  row is created.\<close>

lemma savePhotoToDatabase_cases:
  assumes "savePhotoToDatabase env pd u w = (res, w')"
  shows "(w' = w \<and> (\<exists>e. res = Some (Failure e)))
       \<or> (\<exists>p b m. res = Some (Failure (Error m))
              \<and> events w' = events w @ [Request (Storage_upload p b) (Some m)]
              \<and> photos w' = photos w)
       \<or> (\<exists>p b. res = None
              \<and> events w' = events w @ [Request (Storage_upload p b) None]
              \<and> photos w' = photos w)
       \<or> (\<exists>p b f m r. res = Some (Failure (Error m)) \<and> derived_payload env pd f p
              \<and> events w' = events w @ [Request (Storage_upload p b) None,
                                          Request (Insert_photo f) (Some m),
                                          Request (Storage_remove [p]) r]
              \<and> r = fault_at env (length (events w) + 2)
              \<and> (r = None \<longrightarrow> bucket w' = bucket w)
              \<and> photos w' = photos w)
       \<or> (\<exists>p b f row. res = Some (Success row) \<and> derived_payload env pd f p \<and> p \<noteq> []
              \<and> not_null_ok f
              \<and> row = new_row f (next_id w) (now env (emit (Request (Storage_upload p b) None) w))
              \<and> events w' = events w @ [Request (Storage_upload p b) None,
                                          Request (Insert_photo f) None]
              \<and> bucket w' = bucket w @ [(p, b)]
              \<and> photos w' = photos w @ [row])"
proof (cases "requireAdmin u")
  case (Inl e)
  with assms show ?thesis by (auto simp: savePhotoToDatabase_def)
next
  case admin: (Inr a)
  show ?thesis
  proof (cases "validateImageSize env (imageData pd)")
    case (Inl e)
    with assms admin show ?thesis by (auto simp: savePhotoToDatabase_def)
  next
    case size: (Inr a')
    show ?thesis
    proof (cases u)
      case None
      with assms admin size show ?thesis by (auto simp: savePhotoToDatabase_def)
    next
      case (Some usr)
      obtain r1 w1 where up:
        "uploadOriginalImage env (imageData pd) (or_default (pd_filename pd) ''photo.jpg'') (uid usr) w = (r1, w1)"
        by (cases "uploadOriginalImage env (imageData pd) (or_default (pd_filename pd) ''photo.jpg'') (uid usr) w") auto
      note upc = uploadOriginalImage_cases [OF up]
      show ?thesis
      proof (cases r1)
        case (Inl e)
        with assms admin size Some up have "res = Some (Failure e)" and "w' = w1"
          by (auto simp: savePhotoToDatabase_def)
        with upc Inl show ?thesis by auto
      next
        case (Inr p)
        with upc obtain b where pb: "p \<noteq> []" "events w1 = events w @ [Request (Storage_upload p b) None]"
          "photos w1 = photos w" "next_id w1 = next_id w" "bucket w1 = bucket w @ [(p, b)]"
          "p \<notin> fst ` set (bucket w)"
          by auto
        show ?thesis
        proof (cases "compressImage env (imageData pd) 800 600 (8 / 10)")
          case None
          with assms admin size Some up Inr have "res = None" and "w' = w1"
            by (auto simp: savePhotoToDatabase_def)
          with pb show ?thesis by auto
        next
          case c: (Some c)
          show ?thesis
          proof (cases "createThumbnail env c 800 800")
            case None
            with assms admin size Some up Inr c have "res = None" and "w' = w1"
              by (auto simp: savePhotoToDatabase_def)
            with pb show ?thesis by auto
          next
            case t: (Some t)
            define f where "f = insert_fields env w1 pd usr c t p"
            have der: "derived_payload env pd f p"
              using c t by (simp add: derived_payload_def f_def insert_fields_def)
            obtain r2 w2 where ins: "db_insert env f w1 = (r2, w2)"
              by (cases "db_insert env f w1") auto
            note insc = db_insert_cases [OF ins]
            show ?thesis
            proof (cases r2)
              case (Inl m)
              obtain r3 w3 where del: "deleteOriginalImage env p w2 = (r3, w3)"
                by (cases "deleteOriginalImage env p w2") auto
              from assms admin size Some up Inr c t ins Inl del
              have "res = Some (Failure (Error m))" and "w' = w3"
                by (auto simp: savePhotoToDatabase_def f_def)
              moreover from insc Inl have i2: "events w2 = events w1 @ [Request (Insert_photo f) (Some m)]"
                "photos w2 = photos w1" "bucket w2 = bucket w1" by auto
              moreover have "fault env w2 = fault_at env (length (events w) + 2)"
                by (simp add: fault_def i2 pb)
              moreover have "filter (\<lambda>(q, b). q \<noteq> p) (bucket w @ [(p, b)]) = bucket w"
                using pb(6) by (force simp: filter_id_conv)
              moreover note deleteOriginalImage_effect [OF del] pb der
              ultimately show ?thesis by auto
            next
              case (Inr row)
              from assms admin size Some up \<open>r1 = Inr p\<close> c t ins Inr
              have "res = Some (Success row)" and "w' = w2"
                by (auto simp: savePhotoToDatabase_def f_def)
              moreover from insc Inr have "row = new_row f (next_id w1) (now env w1)" "not_null_ok f"
                "events w2 = events w1 @ [Request (Insert_photo f) None]"
                "photos w2 = photos w1 @ [row]" "bucket w2 = bucket w1" by auto
              moreover have "now env w1 = now env (emit (Request (Storage_upload p b) None) w)"
                by (simp add: now_def pb)
              moreover note pb der
              ultimately show ?thesis by auto
            qed
          qed
        qed
      qed
    qed
  qed
qed

text \<open>
  Claim C1. Whenever a run of \<open>savePhotoToDatabase\<close> sends an insert that the database
  fails with message \<open>m\<close>, the run sent exactly three requests: the upload of the original,
  which succeeded and gave the path \<open>p\<close> that the insert carries, the failed insert, and
  then a removal of \<open>p\<close> from storage. The function returns \<open>success: false\<close> with the
  error of the insert whatever the outcome of the removal is (the outcome is the one the
  backend gives to the third request); when the removal succeeds the bucket is as it was
  before the call.
\<close>

theorem failed_insert_is_followed_by_cleanup:
  assumes "savePhotoToDatabase env pd u w = (res, w')"
      and "Request (Insert_photo f) (Some m) \<in> set (drop (length (events w)) (events w'))"
  shows "res = Some (Failure (Error m))
       \<and> (\<exists>p b. storage_path f = Some p
             \<and> events w' = events w @ [Request (Storage_upload p b) None,
                                        Request (Insert_photo f) (Some m),
                                        Request (Storage_remove [p]) (fault_at env (length (events w) + 2))]
             \<and> (fault_at env (length (events w) + 2) = None \<longrightarrow> bucket w' = bucket w))"
  using savePhotoToDatabase_cases [OF assms(1)] assms(2)
  by (elim disjE exE conjE) (auto dest: derived_payloadD(1))

lemma run_insert_fails:
  "savePhotoToDatabase insert_fails_env example_photo (Some example_admin) empty_world =
     (Some (Failure (Error ''insert failed'')),
      empty_world\<lparr>bucket := [(''u1/2024-05-01T10-20-30-000Z_find.jpg'', ''QUJD'')],
                  events := [Request (Storage_upload ''u1/2024-05-01T10-20-30-000Z_find.jpg'' ''QUJD'') None,
                             Request (Insert_photo example_payload) (Some ''insert failed''),
                             Request (Storage_remove [''u1/2024-05-01T10-20-30-000Z_find.jpg''])
                               (Some ''remove failed'')]\<rparr>)"
  by (simp add: savePhotoToDatabase_def requireAdmin_def checkAdminPermission_def example_admin_def
      validateImageSize_def example_photo_def uploadOriginalImage_def base64ToBlob_def split_comma_1_def
      insert_fails_env_def example_env_def now_def fault_def empty_world_def replace_colon_dot_def
      storage_upload_def emit_def or_default_def compressImage_def createThumbnail_def Let_def
      db_insert_def insert_fields_def or_null_def deleteOriginalImage_def storage_remove_def
      example_payload_def math_round_def)

theorem failed_insert_cleanup_witness:
  "Request (Insert_photo example_payload) (Some ''insert failed'')
     \<in> set (drop (length (events empty_world))
          (events (snd (savePhotoToDatabase insert_fails_env example_photo (Some example_admin) empty_world))))
   \<and> fst (savePhotoToDatabase insert_fails_env example_photo (Some example_admin) empty_world)
       = Some (Failure (Error ''insert failed''))"
proof -
  have h2: "Request (Insert_photo example_payload) (Some ''insert failed'')
     \<in> set (drop (length (events empty_world))
          (events (snd (savePhotoToDatabase insert_fails_env example_photo (Some example_admin) empty_world))))"
    by (simp add: run_insert_fails) (simp add: empty_world_def)
  have h1: "savePhotoToDatabase insert_fails_env example_photo (Some example_admin) empty_world
      = (fst (savePhotoToDatabase insert_fails_env example_photo (Some example_admin) empty_world),
         snd (savePhotoToDatabase insert_fails_env example_photo (Some example_admin) empty_world))"
    by simp
  from failed_insert_is_followed_by_cleanup [OF h1 h2] h2 show ?thesis by blast
qed

lemma run_success:
  "savePhotoToDatabase example_env example_photo (Some example_admin) empty_world =
     (Some (Success example_row),
      empty_world\<lparr>photos := [example_row],
                  bucket := [(''u1/2024-05-01T10-20-30-000Z_find.jpg'', ''QUJD'')],
                  next_id := 2,
                  events := [Request (Storage_upload ''u1/2024-05-01T10-20-30-000Z_find.jpg'' ''QUJD'') None,
                             Request (Insert_photo example_payload) None]\<rparr>)"
  by (simp add: savePhotoToDatabase_def requireAdmin_def checkAdminPermission_def example_admin_def
      validateImageSize_def example_photo_def uploadOriginalImage_def base64ToBlob_def split_comma_1_def
      example_env_def now_def fault_def empty_world_def replace_colon_dot_def
      storage_upload_def emit_def or_default_def compressImage_def createThumbnail_def Let_def
      db_insert_def insert_fields_def or_null_def not_null_ok_def example_row_def
      example_payload_def math_round_def new_row_def)

text \<open>
  Claim C5. \<open>savePhotoToDatabase\<close> leaves the table as it was or appends exactly one row,
  the one it returns; that row has a latitude, a longitude, an image payload, a thumbnail
  and a storage path, none of them null, and the path is non-empty and names an object that
  is in the bucket. An insert request is only ever the second request of a run, directly
  after an upload that succeeded and returned the path the insert carries.
\<close>

theorem created_row_is_complete:
  assumes "savePhotoToDatabase env pd u w = (res, w')"
  shows "(photos w' = photos w
          \<or> (\<exists>row p b. photos w' = photos w @ [row] \<and> res = Some (Success row)
                \<and> lat row \<noteq> None \<and> lng row \<noteq> None \<and> image_data row \<noteq> None
                \<and> thumbnail_data row \<noteq> None \<and> storage_path row = Some p \<and> p \<noteq> []
                \<and> (p, b) \<in> set (bucket w')))
       \<and> (\<forall>f r. Request (Insert_photo f) r \<in> set (drop (length (events w)) (events w'))
             \<longrightarrow> (\<exists>p b. take 2 (drop (length (events w)) (events w'))
                           = [Request (Storage_upload p b) None, Request (Insert_photo f) r]
                        \<and> storage_path f = Some p))"
  using savePhotoToDatabase_cases [OF assms]
  by (elim disjE exE conjE)
     (auto dest: derived_payloadD simp: new_row_def not_null_ok_def)

theorem created_row_is_complete_witness:
  "photos (snd (savePhotoToDatabase example_env example_photo (Some example_admin) empty_world))
     = photos empty_world @ [example_row]
   \<and> lat example_row \<noteq> None \<and> lng example_row \<noteq> None \<and> image_data example_row \<noteq> None
   \<and> thumbnail_data example_row \<noteq> None \<and> storage_path example_row \<noteq> None"
proof -
  have h1: "savePhotoToDatabase example_env example_photo (Some example_admin) empty_world
      = (fst (savePhotoToDatabase example_env example_photo (Some example_admin) empty_world),
         snd (savePhotoToDatabase example_env example_photo (Some example_admin) empty_world))"
    by simp
  have p: "photos (snd (savePhotoToDatabase example_env example_photo (Some example_admin) empty_world))
     = photos empty_world @ [example_row]"
    by (simp add: run_success) (simp add: empty_world_def)
  from created_row_is_complete [OF h1] p show ?thesis by auto
qed

section \<open>Updates and their frame\<close>

lemma db_update_effect:
  assumes "db_update env i as w = (r, w')"
  shows "events w' = events w @ [Request (Update_photo i as) (case r of Inl m \<Rightarrow> Some m | Inr rows \<Rightarrow> None)]"
    and "bucket w' = bucket w" and "next_id w' = next_id w"
    and "photos w' = photos w
         \<or> photos w' = map (\<lambda>r. if id_col r = i then updated_row as (now env w) r else r) (photos w)"
  using assms
  by (auto simp: db_update_def split: option.splits if_splits)

lemma map_frame_update:
  assumes "\<And>r. g (updated_row as t r) = g r"
  shows "map g (map (\<lambda>r. if id_col r = i then updated_row as t r else r) rows) = map g rows"
  by (induction rows) (simp_all add: assms)

lemma db_update_frame:
  assumes "db_update env i as w = (r, w')" and "\<And>t row. g (updated_row as t row) = g row"
  shows "map g (photos w') = map g (photos w)"
  using db_update_effect(4) [OF assms(1)] map_frame_update [of g as _ i "photos w", OF assms(2)]
  by auto

lemma run_processPhoto:
  "processPhoto example_env example_migration unmigrated_row unmigrated_world =
     (Migrated ''u1/2024-05-01T10-20-29-000Z_find.jpg'',
      \<lparr>photos = [unmigrated_row\<lparr>storage_path := Some ''u1/2024-05-01T10-20-29-000Z_find.jpg'',
                                updated_at := ''2024-05-01T10:20:30.000Z''\<rparr>],
       bucket = [(''u1/2024-05-01T10-20-29-000Z_find.jpg'', ''U01BTEw='')],
       next_id = 2,
       events = [Request (Storage_upload ''u1/2024-05-01T10-20-29-000Z_find.jpg'' ''U01BTEw='') None,
                 Request (Update_photo 1 [Set_storage_path (Some ''u1/2024-05-01T10-20-29-000Z_find.jpg'')]) None]\<rparr>)"
  by (simp add: processPhoto_def unmigrated_row_def example_row_def example_payload_def new_row_def
      example_migration_def createUniqueFilename_def example_env_def or_default_def replace_colon_dot_def
      uploadToStorage_def base64ToBlob_def split_comma_1_def storage_upload_def fault_def
      unmigrated_world_def emit_def updatePhotoStoragePath_def db_update_def updated_row_def now_def
      Let_def)

text \<open>
  Claim C6, as stated, says that a persisted row is mutated only in its category, name,
  description or thumbnail. The storage-migration script of the repository mutates the
  storage pointer of a persisted row: here \<open>processPhoto\<close> turns the \<open>storage_path\<close> of
  the only row from null into the path of the object it uploaded.
\<close>

theorem migration_writes_storage_path:
  "map storage_path (photos unmigrated_world) = [None]
   \<and> map storage_path (photos (snd (processPhoto example_env example_migration unmigrated_row unmigrated_world)))
      = [Some ''u1/2024-05-01T10-20-29-000Z_find.jpg'']"
  by (simp add: run_processPhoto) (simp add: unmigrated_world_def unmigrated_row_def)

text \<open>
  Claim C6, amended. The three operations it names keep their frame. \<open>updatePhotoType\<close>
  sends nothing or one update that sets only \<open>type\<close>; \<open>updatePhotoDetails\<close> sends nothing
  or one update that sets only \<open>name\<close> and \<open>description\<close>; \<open>updatePhotoWithThumbnail\<close>
  sends one update that sets only \<open>thumbnail_data\<close>. After each of them the table has the
  same rows in the same order, equal in every column but the ones set and \<open>updated_at\<close>
  (stamped by the trigger); in particular id, latitude, longitude, image payload and
  storage pointer of every row are unchanged.
\<close>

theorem edits_and_thumbnail_updates_keep_their_frame:
  "(updatePhotoType env photoId newType u w = (res1, w1) \<longrightarrow>
      (events w1 = events w \<or> (\<exists>out. events w1 = events w @ [Request (Update_photo photoId [Set_type newType]) out]))
      \<and> map (\<lambda>r. r\<lparr>type_col := None, updated_at := []\<rparr>) (photos w1)
          = map (\<lambda>r. r\<lparr>type_col := None, updated_at := []\<rparr>) (photos w)
      \<and> map (\<lambda>r. (id_col r, lat r, lng r, image_data r, storage_path r)) (photos w1)
          = map (\<lambda>r. (id_col r, lat r, lng r, image_data r, storage_path r)) (photos w))
 \<and> (updatePhotoDetails env photoId nm descr u w = (res2, w2) \<longrightarrow>
      (events w2 = events w
       \<or> (\<exists>out. events w2 = events w @ [Request (Update_photo photoId [Set_name (or_null nm), Set_description (or_null descr)]) out]))
      \<and> map (\<lambda>r. r\<lparr>name_col := None, description := None, updated_at := []\<rparr>) (photos w2)
          = map (\<lambda>r. r\<lparr>name_col := None, description := None, updated_at := []\<rparr>) (photos w)
      \<and> map (\<lambda>r. (id_col r, lat r, lng r, image_data r, storage_path r)) (photos w2)
          = map (\<lambda>r. (id_col r, lat r, lng r, image_data r, storage_path r)) (photos w))
 \<and> (updatePhotoWithThumbnail env photoId thumbnailData w = (ok, w3) \<longrightarrow>
      (\<exists>out. events w3 = events w @ [Request (Update_photo photoId [Set_thumbnail_data (Some thumbnailData)]) out])
      \<and> map (\<lambda>r. r\<lparr>thumbnail_data := None, updated_at := []\<rparr>) (photos w3)
          = map (\<lambda>r. r\<lparr>thumbnail_data := None, updated_at := []\<rparr>) (photos w)
      \<and> map (\<lambda>r. (id_col r, lat r, lng r, image_data r, storage_path r)) (photos w3)
          = map (\<lambda>r. (id_col r, lat r, lng r, image_data r, storage_path r)) (photos w))"
proof (intro conjI impI)
  assume a: "updatePhotoType env photoId newType u w = (res1, w1)"
  show "events w1 = events w \<or> (\<exists>out. events w1 = events w @ [Request (Update_photo photoId [Set_type newType]) out])"
    using a by (auto simp: updatePhotoType_def split: sum.splits prod.splits dest: db_update_effect(1))
  show "map (\<lambda>r. r\<lparr>type_col := None, updated_at := []\<rparr>) (photos w1)
          = map (\<lambda>r. r\<lparr>type_col := None, updated_at := []\<rparr>) (photos w)"
    using a by (auto simp: updatePhotoType_def updated_row_def split: sum.splits prod.splits
        intro!: db_update_frame)
  show "map (\<lambda>r. (id_col r, lat r, lng r, image_data r, storage_path r)) (photos w1)
          = map (\<lambda>r. (id_col r, lat r, lng r, image_data r, storage_path r)) (photos w)"
    using a by (auto simp: updatePhotoType_def updated_row_def split: sum.splits prod.splits
        intro!: db_update_frame)
next
  assume a: "updatePhotoDetails env photoId nm descr u w = (res2, w2)"
  show "events w2 = events w
       \<or> (\<exists>out. events w2 = events w @ [Request (Update_photo photoId [Set_name (or_null nm), Set_description (or_null descr)]) out])"
    using a by (auto simp: updatePhotoDetails_def split: sum.splits prod.splits dest: db_update_effect(1))
  show "map (\<lambda>r. r\<lparr>name_col := None, description := None, updated_at := []\<rparr>) (photos w2)
          = map (\<lambda>r. r\<lparr>name_col := None, description := None, updated_at := []\<rparr>) (photos w)"
    using a by (auto simp: updatePhotoDetails_def updated_row_def split: sum.splits prod.splits
        intro!: db_update_frame)
  show "map (\<lambda>r. (id_col r, lat r, lng r, image_data r, storage_path r)) (photos w2)
          = map (\<lambda>r. (id_col r, lat r, lng r, image_data r, storage_path r)) (photos w)"
    using a by (auto simp: updatePhotoDetails_def updated_row_def split: sum.splits prod.splits
        intro!: db_update_frame)
next
  assume a: "updatePhotoWithThumbnail env photoId thumbnailData w = (ok, w3)"
  show "\<exists>out. events w3 = events w @ [Request (Update_photo photoId [Set_thumbnail_data (Some thumbnailData)]) out]"
    using a by (auto simp: updatePhotoWithThumbnail_def split: sum.splits prod.splits dest: db_update_effect(1))
  show "map (\<lambda>r. r\<lparr>thumbnail_data := None, updated_at := []\<rparr>) (photos w3)
          = map (\<lambda>r. r\<lparr>thumbnail_data := None, updated_at := []\<rparr>) (photos w)"
    using a by (auto simp: updatePhotoWithThumbnail_def updated_row_def split: sum.splits prod.splits
        intro!: db_update_frame)
  show "map (\<lambda>r. (id_col r, lat r, lng r, image_data r, storage_path r)) (photos w3)
          = map (\<lambda>r. (id_col r, lat r, lng r, image_data r, storage_path r)) (photos w)"
    using a by (auto simp: updatePhotoWithThumbnail_def updated_row_def split: sum.splits prod.splits
        intro!: db_update_frame)
qed

lemma run_updatePhotoType:
  "updatePhotoType example_env 1 (Some ''coins'') (Some example_admin) stored_world =
     (Success (Some (example_row\<lparr>type_col := Some ''coins''\<rparr>)),
      stored_world\<lparr>photos := [example_row\<lparr>type_col := Some ''coins''\<rparr>],
                   events := [Request (Update_photo 1 [Set_type (Some ''coins'')]) None]\<rparr>)"
  by (simp add: updatePhotoType_def requireAdmin_def checkAdminPermission_def example_admin_def
      db_update_def example_env_def fault_def stored_world_def example_row_def new_row_def
      example_payload_def emit_def updated_row_def now_def first_row_def)

theorem edits_and_thumbnail_updates_witness:
  "map type_col (photos (snd (updatePhotoType example_env 1 (Some ''coins'') (Some example_admin) stored_world)))
     = [Some ''coins'']
   \<and> map (\<lambda>r. (id_col r, lat r, lng r, image_data r, storage_path r))
        (photos (snd (updatePhotoType example_env 1 (Some ''coins'') (Some example_admin) stored_world)))
     = map (\<lambda>r. (id_col r, lat r, lng r, image_data r, storage_path r)) (photos stored_world)
   \<and> map (\<lambda>r. (id_col r, lat r, lng r, image_data r, storage_path r))
        (photos (snd (updatePhotoDetails example_env 1 (Some ''Ring'') None (Some example_admin) stored_world)))
     = map (\<lambda>r. (id_col r, lat r, lng r, image_data r, storage_path r)) (photos stored_world)
   \<and> map (\<lambda>r. (id_col r, lat r, lng r, image_data r, storage_path r))
        (photos (snd (updatePhotoWithThumbnail example_env 1 ''data:image/jpeg;base64,VEhVTUI='' stored_world)))
     = map (\<lambda>r. (id_col r, lat r, lng r, image_data r, storage_path r)) (photos stored_world)"
proof -
  have h1: "updatePhotoType example_env 1 (Some ''coins'') (Some example_admin) stored_world
     = (fst (updatePhotoType example_env 1 (Some ''coins'') (Some example_admin) stored_world),
        snd (updatePhotoType example_env 1 (Some ''coins'') (Some example_admin) stored_world))"
    and h2: "updatePhotoDetails example_env 1 (Some ''Ring'') None (Some example_admin) stored_world
     = (fst (updatePhotoDetails example_env 1 (Some ''Ring'') None (Some example_admin) stored_world),
        snd (updatePhotoDetails example_env 1 (Some ''Ring'') None (Some example_admin) stored_world))"
    and h3: "updatePhotoWithThumbnail example_env 1 ''data:image/jpeg;base64,VEhVTUI='' stored_world
     = (fst (updatePhotoWithThumbnail example_env 1 ''data:image/jpeg;base64,VEhVTUI='' stored_world),
        snd (updatePhotoWithThumbnail example_env 1 ''data:image/jpeg;base64,VEhVTUI='' stored_world))"
    by simp_all
  have t: "map type_col (photos (snd (updatePhotoType example_env 1 (Some ''coins'') (Some example_admin) stored_world)))
     = [Some ''coins'']"
    by (simp only: run_updatePhotoType) simp
  from edits_and_thumbnail_updates_keep_their_frame
         [of example_env 1 "Some ''coins''" "Some example_admin" stored_world
             "fst (updatePhotoType example_env 1 (Some ''coins'') (Some example_admin) stored_world)"
             "snd (updatePhotoType example_env 1 (Some ''coins'') (Some example_admin) stored_world)"
             "Some ''Ring''" None
             "fst (updatePhotoDetails example_env 1 (Some ''Ring'') None (Some example_admin) stored_world)"
             "snd (updatePhotoDetails example_env 1 (Some ''Ring'') None (Some example_admin) stored_world)"
             "''data:image/jpeg;base64,VEhVTUI=''"
             "fst (updatePhotoWithThumbnail example_env 1 ''data:image/jpeg;base64,VEhVTUI='' stored_world)"
             "snd (updatePhotoWithThumbnail example_env 1 ''data:image/jpeg;base64,VEhVTUI='' stored_world)"]
       h1 h2 h3 t
  show ?thesis by blast
qed


section \<open>Thumbnails\<close>

lemma retry_from_events:
  assumes op: "\<And>w r w'. operation w = (r, w') \<Longrightarrow> \<exists>es. events w' = events w @ es \<and> (\<forall>e\<in>set es. P e)"
      and sl: "\<And>ms. P (Sleep ms)"
      and run: "retry_from operation mx a le k w = (r, w')"
  shows "\<exists>es. events w' = events w @ es \<and> (\<forall>e\<in>set es. P e)"
  using run
proof (induction k arbitrary: a le w)
  case 0
  then show ?case by simp
next
  case (Suc k)
  obtain r1 w1 where o: "operation w = (r1, w1)" by (cases "operation w") auto
  from op [OF o] obtain es1 where es1: "events w1 = events w @ es1" "\<forall>e\<in>set es1. P e" by blast
  show ?case
  proof (cases r1)
    case (Inr v)
    with Suc.prems o have "w' = w1" by simp
    with es1 show ?thesis by blast
  next
    case (Inl e)
    show ?thesis
    proof (cases "isTimeout e \<and> a < mx")
      case True
      with Suc.prems o Inl
      have "retry_from operation mx (a + 1) (Some e) k (sleep (a * 2000) w1) = (r, w')" by simp
      from Suc.IH [OF this] obtain es2 where
        "events w' = events (sleep (a * 2000) w1) @ es2" "\<forall>e\<in>set es2. P e" by blast
      with es1 sl have "events w' = events w @ (es1 @ Sleep (a * 2000) # es2)"
        "\<forall>e\<in>set (es1 @ Sleep (a * 2000) # es2). P e"
        by (auto simp: sleep_def)
      then show ?thesis by blast
    next
      case False
      with Suc.prems o Inl have "w' = w1" by auto
      with es1 show ?thesis by blast
    qed
  qed
qed

lemma processBatch_from_events_gen:
  assumes run: "processBatch_from env config dry batch results w = (r, w')"
      and upd: "\<And>photo t out. photo \<in> set batch
                  \<Longrightarrow> createThumbnail_sharp env (image_data photo) config = Inr t
                  \<Longrightarrow> Q (Request (Update_photo (id_col photo) [Set_thumbnail_data (Some t)]) out)"
      and sl: "\<And>ms. Q (Sleep ms)"
  shows "\<exists>es. events w' = events w @ es \<and> (\<forall>e\<in>set es. Q e)"
  using run upd
proof (induction batch arbitrary: results w)
  case Nil
  then show ?case by simp
next
  case (Cons photo rest)
  have step: "\<exists>es. events w' = events w1 @ es \<and> (\<forall>e\<in>set es. Q e)"
    if "processBatch_from env config dry rest results1 w1 = (r, w')" for results1 w1
    by (rule Cons.IH [OF that]) (rule Cons.prems(2), simp_all)
  show ?case
  proof (cases dry)
    case True
    with Cons.prems(1) obtain results1 where
      "processBatch_from env config dry rest results1 w = (r, w')" by simp
    from step [OF this] show ?thesis .
  next
    case False
    show ?thesis
    proof (cases "createThumbnail_sharp env (image_data photo) config")
      case (Inl e)
      with False Cons.prems(1) obtain results1 where
        "processBatch_from env config dry rest results1 w = (r, w')" by simp
      from step [OF this] show ?thesis .
    next
      case (Inr t)
      let ?op = "\<lambda>w. case updatePhotoWithThumbnail env (id_col photo) t w of (b, w') \<Rightarrow> (Inr b, w')"
      obtain r1 w1 where ro: "retry_from ?op MAX_RETRIES 1 None MAX_RETRIES w = (r1, w1)"
        by (cases "retry_from ?op MAX_RETRIES 1 None MAX_RETRIES w") auto
      have opev: "\<exists>es. events w' = events w @ es \<and> (\<forall>e\<in>set es. Q e)"
        if "?op w = (r, w')" for w and r :: "error + bool" and w'
      proof -
        obtain r0 w0 where u: "db_update env (id_col photo) [Set_thumbnail_data (Some t)] w = (r0, w0)"
          by (cases "db_update env (id_col photo) [Set_thumbnail_data (Some t)] w") auto
        with that have "w' = w0"
          by (auto simp: updatePhotoWithThumbnail_def split: sum.splits)
        with db_update_effect(1) [OF u]
        have "events w' = events w @ [Request (Update_photo (id_col photo) [Set_thumbnail_data (Some t)])
                 (case r0 of Inl m \<Rightarrow> Some m | Inr rows \<Rightarrow> None)]"
          by simp
        moreover have "Q (Request (Update_photo (id_col photo) [Set_thumbnail_data (Some t)])
                 (case r0 of Inl m \<Rightarrow> Some m | Inr rows \<Rightarrow> None))"
          by (rule Cons.prems(2) [OF _ Inr]) simp
        ultimately show ?thesis by simp
      qed
      have "\<exists>es. events w1 = events w @ es \<and> (\<forall>e\<in>set es. Q e)"
      proof (rule retry_from_events [where operation = ?op and P = Q])
        show "\<exists>es. events w' = events w @ es \<and> (\<forall>e\<in>set es. Q e)"
          if "?op w = (r, w')" for w and r :: "error + bool" and w'
          using that by (rule opev)
        show "Q (Sleep ms)" for ms by (rule sl)
        show "retry_from ?op MAX_RETRIES 1 None MAX_RETRIES w = (r1, w1)" by (rule ro)
      qed
      then obtain es1 where es1: "events w1 = events w @ es1" "\<forall>e\<in>set es1. Q e"
        by blast
      have cont: ?thesis if "processBatch_from env config dry rest results1 w1 = (r, w')" for results1
      proof -
        from step [OF that] obtain es2 where "events w' = events w1 @ es2" "\<forall>e\<in>set es2. Q e" by blast
        with es1 have "events w' = events w @ (es1 @ es2)" "\<forall>e\<in>set (es1 @ es2). Q e"
          by auto
        then show ?thesis by blast
      qed
      show ?thesis
      proof (cases r1)
        case (Inl eo)
        show ?thesis
        proof (cases eo)
          case None
          with Cons.prems(1) False Inr ro Inl have "w' = w1" by (simp add: retryOperation_def)
          with es1 show ?thesis by blast
        next
          case (Some e)
          with Cons.prems(1) False Inr ro Inl show ?thesis
            by (intro cont) (simp add: retryOperation_def)
        qed
      next
        case (Inr success)
        with Cons.prems(1) False \<open>createThumbnail_sharp env (image_data photo) config = Inr t\<close> ro
        show ?thesis
          by (intro cont) (simp add: retryOperation_def)
      qed
    qed
  qed
qed

lemma run_processBatch:
  "processBatch example_env THUMBNAIL_CONFIG False [example_row] stored_world =
     (Inr \<lparr>processed = 1, successful = 1, failed = 0, errors = []\<rparr>,
      stored_world\<lparr>photos := [example_row\<lparr>thumbnail_data := Some ''data:image/jpeg;base64,VEhVTUI=''\<rparr>],
                   events := [Request (Update_photo 1 [Set_thumbnail_data (Some ''data:image/jpeg;base64,VEhVTUI='')]) None]\<rparr>)"
  by (simp add: processBatch_def createThumbnail_sharp_def example_row_def new_row_def example_payload_def
      example_env_def strip_data_url_def is_lower_def THUMBNAIL_CONFIG_def retryOperation_def
      MAX_RETRIES_def numeral_3_eq_3 updatePhotoWithThumbnail_def db_update_def fault_def
      stored_world_def emit_def updated_row_def now_def)

text \<open>
  Claim C3. In \<open>savePhotoToDatabase\<close>, every insert that is sent, and so the row that is
  created, carries as \<open>image_data\<close> the output \<open>c\<close> of \<open>compressImage\<close> on the captured
  image and as \<open>thumbnail_data\<close> the output of \<open>createThumbnail\<close> on \<open>c\<close> (not on the
  captured image). In the thumbnail scripts, every request that \<open>processBatch\<close> sends is an
  update of one photo of the batch that sets \<open>thumbnail_data\<close> to the thumbnail made of
  that photo's stored \<open>image_data\<close> column.
\<close>

theorem thumbnail_is_made_of_the_compressed_image:
  "(savePhotoToDatabase env pd u w = (res, w') \<longrightarrow>
      (\<forall>f out. Request (Insert_photo f) out \<in> set (drop (length (events w)) (events w')) \<longrightarrow>
          (\<exists>c. compressImage env (imageData pd) 800 600 (8 / 10) = Some c \<and> image_data f = Some c
              \<and> thumbnail_data f = createThumbnail env c 800 800))
      \<and> (\<forall>row. res = Some (Success row) \<longrightarrow>
          (\<exists>c. compressImage env (imageData pd) 800 600 (8 / 10) = Some c \<and> image_data row = Some c
              \<and> thumbnail_data row = createThumbnail env c 800 800)))
 \<and> (processBatch env config dry batch w2 = (r, w2') \<longrightarrow>
      (\<forall>req out. Request req out \<in> set (drop (length (events w2)) (events w2')) \<longrightarrow>
          (\<exists>photo t. photo \<in> set batch
              \<and> createThumbnail_sharp env (image_data photo) config = Inr t
              \<and> req = Update_photo (id_col photo) [Set_thumbnail_data (Some t)])))"
proof (intro conjI impI)
  assume a: "savePhotoToDatabase env pd u w = (res, w')"
  show "\<forall>f out. Request (Insert_photo f) out \<in> set (drop (length (events w)) (events w')) \<longrightarrow>
          (\<exists>c. compressImage env (imageData pd) 800 600 (8 / 10) = Some c \<and> image_data f = Some c
              \<and> thumbnail_data f = createThumbnail env c 800 800)"
    using savePhotoToDatabase_cases [OF a]
    by (elim disjE exE conjE) (auto dest: derived_payloadD(6))
  show "\<forall>row. res = Some (Success row) \<longrightarrow>
          (\<exists>c. compressImage env (imageData pd) 800 600 (8 / 10) = Some c \<and> image_data row = Some c
              \<and> thumbnail_data row = createThumbnail env c 800 800)"
    using savePhotoToDatabase_cases [OF a]
    by (elim disjE exE conjE) (auto dest: derived_payloadD(6) simp: new_row_def)
next
  assume a: "processBatch env config dry batch w2 = (r, w2')"
  let ?Q = "\<lambda>e. case e of
              Sleep ms \<Rightarrow> True
            | Request req out \<Rightarrow>
                (\<exists>photo t. photo \<in> set batch
                   \<and> createThumbnail_sharp env (image_data photo) config = Inr t
                   \<and> req = Update_photo (id_col photo) [Set_thumbnail_data (Some t)])"
  have "\<exists>es. events w2' = events w2 @ es \<and> (\<forall>e\<in>set es. ?Q e)"
  proof (rule processBatch_from_events_gen [OF a [unfolded processBatch_def]])
    show "?Q (Request (Update_photo (id_col photo) [Set_thumbnail_data (Some t)]) out)"
      if "photo \<in> set batch" "createThumbnail_sharp env (image_data photo) config = Inr t"
      for photo t out
      using that by auto
    show "?Q (Sleep ms)" for ms by simp
  qed
  then obtain es where es: "events w2' = events w2 @ es" "\<forall>e\<in>set es. ?Q e" by blast
  show "\<forall>req out. Request req out \<in> set (drop (length (events w2)) (events w2')) \<longrightarrow>
          (\<exists>photo t. photo \<in> set batch
              \<and> createThumbnail_sharp env (image_data photo) config = Inr t
              \<and> req = Update_photo (id_col photo) [Set_thumbnail_data (Some t)])"
  proof (intro allI impI)
    fix req out
    assume "Request req out \<in> set (drop (length (events w2)) (events w2'))"
    with es(1) have "Request req out \<in> set es" by simp
    with es(2) have "?Q (Request req out)" by blast
    then show "\<exists>photo t. photo \<in> set batch
              \<and> createThumbnail_sharp env (image_data photo) config = Inr t
              \<and> req = Update_photo (id_col photo) [Set_thumbnail_data (Some t)]"
      by simp
  qed
qed

theorem thumbnail_is_made_of_the_compressed_image_witness:
  "fst (savePhotoToDatabase example_env example_photo (Some example_admin) empty_world) = Some (Success example_row)
   \<and> (\<exists>c. compressImage example_env (imageData example_photo) 800 600 (8 / 10) = Some c
          \<and> image_data example_row = Some c
          \<and> thumbnail_data example_row = createThumbnail example_env c 800 800)
   \<and> Request (Update_photo 1 [Set_thumbnail_data (Some ''data:image/jpeg;base64,VEhVTUI='')]) None
       \<in> set (drop (length (events stored_world))
            (events (snd (processBatch example_env THUMBNAIL_CONFIG False [example_row] stored_world))))
   \<and> (\<exists>photo t. photo \<in> set [example_row]
          \<and> createThumbnail_sharp example_env (image_data photo) THUMBNAIL_CONFIG = Inr t
          \<and> Update_photo 1 [Set_thumbnail_data (Some ''data:image/jpeg;base64,VEhVTUI='')]
              = Update_photo (id_col photo) [Set_thumbnail_data (Some t)])"
proof -
  have h1: "savePhotoToDatabase example_env example_photo (Some example_admin) empty_world
      = (fst (savePhotoToDatabase example_env example_photo (Some example_admin) empty_world),
         snd (savePhotoToDatabase example_env example_photo (Some example_admin) empty_world))"
    and h2: "processBatch example_env THUMBNAIL_CONFIG False [example_row] stored_world
      = (fst (processBatch example_env THUMBNAIL_CONFIG False [example_row] stored_world),
         snd (processBatch example_env THUMBNAIL_CONFIG False [example_row] stored_world))"
    by simp_all
  have s: "fst (savePhotoToDatabase example_env example_photo (Some example_admin) empty_world)
      = Some (Success example_row)"
    by (simp add: run_success)
  have e: "Request (Update_photo 1 [Set_thumbnail_data (Some ''data:image/jpeg;base64,VEhVTUI='')]) None
       \<in> set (drop (length (events stored_world))
            (events (snd (processBatch example_env THUMBNAIL_CONFIG False [example_row] stored_world))))"
    by (simp only: run_processBatch) (simp add: stored_world_def)
  from thumbnail_is_made_of_the_compressed_image
         [of example_env example_photo "Some example_admin" empty_world
             "fst (savePhotoToDatabase example_env example_photo (Some example_admin) empty_world)"
             "snd (savePhotoToDatabase example_env example_photo (Some example_admin) empty_world)"
             THUMBNAIL_CONFIG False "[example_row]" stored_world
             "fst (processBatch example_env THUMBNAIL_CONFIG False [example_row] stored_world)"
             "snd (processBatch example_env THUMBNAIL_CONFIG False [example_row] stored_world)"]
       h1 h2 s e
  show ?thesis by blast
qed

section \<open>Deleting a photo\<close>

text \<open>
  Claim C2, as stated, says that \<open>deletePhotoFromDatabase\<close> returns \<open>success: false\<close>
  only when the row deletion itself fails. A caller who is not an admin gets
  \<open>success: false\<close> from the admin gate: no request was sent (the log is empty), no row
  deletion failed, and the row is still in the table.
\<close>

theorem delete_refused_without_failed_deletion:
  "deletePhotoFromDatabase example_env 1 (Some example_visitor) stored_world
     = (Failure (Error ''Admin permission required for this operation''), stored_world)
   \<and> events stored_world = [] \<and> photos stored_world = [example_row]"
  by (simp add: deletePhotoFromDatabase_def requireAdmin_def checkAdminPermission_def
      example_visitor_def stored_world_def)

text \<open>
  Claim C2, amended. For a caller who passes the admin check, \<open>deletePhotoFromDatabase\<close>
  first asks for the storage path (outcome \<open>s\<close>) and then deletes the row (outcome \<open>d\<close>).
  It returns \<open>success: true\<close> exactly when the row deletion succeeded, whatever \<open>s\<close> was
  and whatever the removal of the stored object, if one was tried, returned; when the row
  deletion failed it returns \<open>success: false\<close> with that error, tries no removal and
  leaves the table as it was.
\<close>

theorem delete_succeeds_iff_row_deletion_succeeds:
  assumes run: "deletePhotoFromDatabase env photoId u w = (res, w')"
      and adm: "u = Some usr" "user_metadata usr = Some md" "admin md = JBool True"
  shows "\<exists>s d rest. events w' = events w @ [Request (Select_storage_path photoId) s,
                                            Request (Delete_photo photoId) d] @ rest
           \<and> (res = Success () \<longleftrightarrow> d = None)
           \<and> (\<forall>m. d = Some m \<longrightarrow> res = Failure (Error m) \<and> rest = [] \<and> photos w' = photos w)
           \<and> (d = None \<longrightarrow> photos w' = filter (\<lambda>r. id_col r \<noteq> photoId) (photos w))
           \<and> (rest = [] \<or> (\<exists>p r. rest = [Request (Storage_remove [p]) r]))"
proof -
  have ra: "requireAdmin u = Inr True"
    using adm by (simp add: requireAdmin_def checkAdminPermission_def)
  obtain fetched w1 where f: "db_select_storage_path env photoId w = (fetched, w1)"
    by (cases "db_select_storage_path env photoId w") auto
  then obtain s where w1: "events w1 = events w @ [Request (Select_storage_path photoId) s]"
    "photos w1 = photos w"
    by (auto simp: db_select_storage_path_def split: option.splits list.splits)
  obtain dr w2 where d: "db_delete env photoId w1 = (dr, w2)"
    by (cases "db_delete env photoId w1") auto
  show ?thesis
  proof (cases dr)
    case (Inl m)
    with d have w2: "events w2 = events w1 @ [Request (Delete_photo photoId) (Some m)]" "photos w2 = photos w1"
      by (auto simp: db_delete_def split: option.splits)
    from run ra f d Inl have "res = Failure (Error m)" "w' = w2"
      by (simp_all add: deletePhotoFromDatabase_def)
    with w1 w2 show ?thesis by auto
  next
    case (Inr x)
    with d have w2: "events w2 = events w1 @ [Request (Delete_photo photoId) None]"
      "photos w2 = filter (\<lambda>r. id_col r \<noteq> photoId) (photos w1)"
      by (auto simp: db_delete_def split: option.splits)
    show ?thesis
    proof (cases "\<exists>path. fetched = Inr (Some path) \<and> path \<noteq> []")
      case True
      then obtain path where p: "fetched = Inr (Some path)" "path \<noteq> []" by blast
      obtain r3 w3 where del: "deleteOriginalImage env path w2 = (r3, w3)"
        by (cases "deleteOriginalImage env path w2") auto
      from run ra f d Inr p del have "res = Success ()" "w' = w3"
        by (simp_all add: deletePhotoFromDatabase_def)
      with w1 w2 deleteOriginalImage_effect [OF del] show ?thesis by auto
    next
      case False
      with run ra f d Inr have "res = Success ()" "w' = w2"
        by (auto simp: deletePhotoFromDatabase_def split: sum.splits option.splits)
      with w1 w2 show ?thesis by auto
    qed
  qed
qed

lemma run_delete_remove_fails:
  "deletePhotoFromDatabase remove_fails_env 1 (Some example_admin) stored_world =
     (Success (),
      stored_world\<lparr>photos := [],
                   events := [Request (Select_storage_path 1) None,
                              Request (Delete_photo 1) None,
                              Request (Storage_remove [''u1/2024-05-01T10-20-30-000Z_find.jpg''])
                                (Some ''remove failed'')]\<rparr>)"
  by (simp add: deletePhotoFromDatabase_def requireAdmin_def checkAdminPermission_def example_admin_def
      db_select_storage_path_def remove_fails_env_def example_env_def fault_def stored_world_def
      example_row_def example_payload_def new_row_def emit_def db_delete_def deleteOriginalImage_def
      storage_remove_def)

theorem delete_succeeds_witness:
  "user_metadata example_admin = Some \<lparr>admin = JBool True\<rparr>
   \<and> fst (deletePhotoFromDatabase remove_fails_env 1 (Some example_admin) stored_world) = Success ()
   \<and> (\<exists>s d rest. events (snd (deletePhotoFromDatabase remove_fails_env 1 (Some example_admin) stored_world))
           = events stored_world @ [Request (Select_storage_path 1) s, Request (Delete_photo 1) d] @ rest
           \<and> (fst (deletePhotoFromDatabase remove_fails_env 1 (Some example_admin) stored_world) = Success ()
                \<longleftrightarrow> d = None))
   \<and> Request (Storage_remove [''u1/2024-05-01T10-20-30-000Z_find.jpg'']) (Some ''remove failed'')
       \<in> set (events (snd (deletePhotoFromDatabase remove_fails_env 1 (Some example_admin) stored_world)))"
proof -
  have h1: "deletePhotoFromDatabase remove_fails_env 1 (Some example_admin) stored_world
      = (fst (deletePhotoFromDatabase remove_fails_env 1 (Some example_admin) stored_world),
         snd (deletePhotoFromDatabase remove_fails_env 1 (Some example_admin) stored_world))"
    by simp
  have h2: "user_metadata example_admin = Some \<lparr>admin = JBool True\<rparr>"
    by (simp add: example_admin_def)
  have h3: "admin \<lparr>admin = JBool True\<rparr> = JBool True" by simp
  have r: "fst (deletePhotoFromDatabase remove_fails_env 1 (Some example_admin) stored_world) = Success ()"
    "Request (Storage_remove [''u1/2024-05-01T10-20-30-000Z_find.jpg'']) (Some ''remove failed'')
       \<in> set (events (snd (deletePhotoFromDatabase remove_fails_env 1 (Some example_admin) stored_world)))"
    by (simp_all only: run_delete_remove_fails) simp_all
  from delete_succeeds_iff_row_deletion_succeeds [OF h1 refl h2 h3] h2 r show ?thesis by blast
qed

section \<open>Retrying in the maintenance scripts\<close>

lemma retryOperation_three:
  "retryOperation operation 3 w =
     (case operation w of
        (Inr v, w1) \<Rightarrow> (Inr v, w1)
      | (Inl e1, w1) \<Rightarrow>
          if \<not> isTimeout e1 then (Inl (Some e1), w1)
          else
            (case operation (sleep 2000 w1) of
               (Inr v, w2) \<Rightarrow> (Inr v, w2)
             | (Inl e2, w2) \<Rightarrow>
                 if \<not> isTimeout e2 then (Inl (Some e2), w2)
                 else
                   (case operation (sleep 4000 w2) of
                      (Inr v, w3) \<Rightarrow> (Inr v, w3)
                    | (Inl e3, w3) \<Rightarrow> (Inl (Some e3), w3))))"
  by (simp add: retryOperation_def numeral_3_eq_3 split: prod.splits sum.splits)

lemma includes_str_append:
  "includes_str s sub \<Longrightarrow> includes_str (p @ s) sub"
  by (induction p) simp_all

lemma isTimeout_wrapped:
  "includes_str m ''timeout'' \<or> includes_str m ''canceling statement''
   \<Longrightarrow> isTimeout (Error (''Database error: '' @ m))"
  unfolding isTimeout_def error.sel
  using includes_str_append [of m _ "''Database error: ''"] by blast

lemma getAllPhotos_fault:
  "fault_at env (length (events w)) = Some m
   \<Longrightarrow> getAllPhotos env l off w
       = (Inl (Error (''Database error: '' @ m)), emit (Request (Select_range l off) (Some m)) w)"
  by (simp add: getAllPhotos_def db_select_range_def fault_def)

lemma retry_from_never_undefined:
  "retry_from operation mx a (Some e0) k w \<noteq> (Inl None, w')"
  by (induction k arbitrary: a e0 w) (auto split: prod.splits sum.splits)

lemma retryOperation_never_undefined:
  "0 < mx \<Longrightarrow> retryOperation operation mx w \<noteq> (Inl None, w')"
  by (cases mx) (auto simp: retryOperation_def retry_from_never_undefined split: prod.splits sum.splits)

lemma processBatch_from_returns:
  "\<exists>results' w'. processBatch_from env config dry batch results w = (Inr results', w')"
proof (induction batch arbitrary: results w)
  case Nil
  then show ?case by simp
next
  case (Cons photo rest)
  show ?case
  proof (cases dry)
    case True
    then show ?thesis using Cons.IH by simp
  next
    case False
    show ?thesis
    proof (cases "createThumbnail_sharp env (image_data photo) config")
      case (Inl e)
      with False show ?thesis using Cons.IH by simp
    next
      case (Inr t)
      let ?op = "\<lambda>w. case updatePhotoWithThumbnail env (id_col photo) t w of (b, w') \<Rightarrow> (Inr b, w')"
      obtain r1 w1 where ro: "retryOperation ?op MAX_RETRIES w = (r1 :: error option + bool, w1)"
        by (cases "retryOperation ?op MAX_RETRIES w :: (error option + bool) \<times> world") auto
      have "r1 \<noteq> Inl None"
        using retryOperation_never_undefined [of MAX_RETRIES ?op w w1] ro
        by (auto simp: MAX_RETRIES_def)
      then show ?thesis
        using False Inr ro Cons.IH
        by (cases r1) (auto split: option.splits)
    qed
  qed
qed


text \<open>
  What \<open>retryOperation\<close> does with an operation that throws. With the fixed
  \<open>MAX_RETRIES = 3\<close> it runs the operation again only after it threw an error whose
  message contains \<open>timeout\<close> or \<open>canceling statement\<close>, after a wait of attempt
  number times 2000 ms (2000, then 4000), and at most three times in all; a non-timeout
  error is rethrown at once, and so is the error of the third attempt. The fetch of the
  \<open>--all\<close> loop is such an operation: when the backend times out on three fetches in a
  row, the run ends with exit code 1 after exactly those three requests and two waits.
\<close>

lemma retry_backs_off_and_failed_fetch_aborts:
  "retryOperation operation MAX_RETRIES w =
     (case operation w of
        (Inr v, w1) \<Rightarrow> (Inr v, w1)
      | (Inl e1, w1) \<Rightarrow>
          if \<not> isTimeout e1 then (Inl (Some e1), w1)
          else
            (case operation (sleep (1 * 2000) w1) of
               (Inr v, w2) \<Rightarrow> (Inr v, w2)
             | (Inl e2, w2) \<Rightarrow>
                 if \<not> isTimeout e2 then (Inl (Some e2), w2)
                 else
                   (case operation (sleep (2 * 2000) w2) of
                      (Inr v, w3) \<Rightarrow> (Inr v, w3)
                    | (Inl e3, w3) \<Rightarrow> (Inl (Some e3), w3))))
   \<and> (\<not> limit_reached opts overall
        \<and> fault_at env (length (events w0)) = Some m1
        \<and> (includes_str m1 ''timeout'' \<or> includes_str m1 ''canceling statement'')
        \<and> fault_at env (length (events w0) + 2) = Some m2
        \<and> (includes_str m2 ''timeout'' \<or> includes_str m2 ''canceling statement'')
        \<and> fault_at env (length (events w0) + 4) = Some m3
      \<longrightarrow> all_photos_loop (Suc n) env config opts offset overall w0 =
            (Some 1,
             w0\<lparr>events := events w0 @
                   [Request (Select_range (nat (fetchSize_of opts overall)) offset) (Some m1), Sleep 2000,
                    Request (Select_range (nat (fetchSize_of opts overall)) offset) (Some m2), Sleep 4000,
                    Request (Select_range (nat (fetchSize_of opts overall)) offset) (Some m3)]\<rparr>))"
proof (intro conjI impI)
  show "retryOperation operation MAX_RETRIES w =
     (case operation w of
        (Inr v, w1) \<Rightarrow> (Inr v, w1)
      | (Inl e1, w1) \<Rightarrow>
          if \<not> isTimeout e1 then (Inl (Some e1), w1)
          else
            (case operation (sleep (1 * 2000) w1) of
               (Inr v, w2) \<Rightarrow> (Inr v, w2)
             | (Inl e2, w2) \<Rightarrow>
                 if \<not> isTimeout e2 then (Inl (Some e2), w2)
                 else
                   (case operation (sleep (2 * 2000) w2) of
                      (Inr v, w3) \<Rightarrow> (Inr v, w3)
                    | (Inl e3, w3) \<Rightarrow> (Inl (Some e3), w3))))"
    by (simp add: MAX_RETRIES_def retryOperation_three split: prod.splits sum.splits)
next
  assume a: "\<not> limit_reached opts overall
        \<and> fault_at env (length (events w0)) = Some m1
        \<and> (includes_str m1 ''timeout'' \<or> includes_str m1 ''canceling statement'')
        \<and> fault_at env (length (events w0) + 2) = Some m2
        \<and> (includes_str m2 ''timeout'' \<or> includes_str m2 ''canceling statement'')
        \<and> fault_at env (length (events w0) + 4) = Some m3"
  let ?k = "nat (fetchSize_of opts overall)"
  let ?R = "\<lambda>m. Request (Select_range ?k offset) (Some m)"
  define wa where "wa = emit (?R m1) w0"
  define wb where "wb = emit (?R m2) (sleep 2000 wa)"
  define wc where "wc = emit (?R m3) (sleep 4000 wb)"
  have t1: "isTimeout (Error (''Database error: '' @ m1))"
    and t2: "isTimeout (Error (''Database error: '' @ m2))"
    using a isTimeout_wrapped by blast+
  have g1: "getAllPhotos env ?k offset w0 = (Inl (Error (''Database error: '' @ m1)), wa)"
    using a by (simp add: getAllPhotos_fault wa_def)
  have l2: "length (events (sleep 2000 wa)) = length (events w0) + 2"
    and l3: "length (events (sleep 4000 wb)) = length (events w0) + 4"
    by (simp_all add: wa_def wb_def sleep_def)
  have g2: "getAllPhotos env ?k offset (sleep 2000 wa) = (Inl (Error (''Database error: '' @ m2)), wb)"
    unfolding wb_def by (rule getAllPhotos_fault) (simp only: l2 a)
  have g3: "getAllPhotos env ?k offset (sleep 4000 wb) = (Inl (Error (''Database error: '' @ m3)), wc)"
    unfolding wc_def by (rule getAllPhotos_fault) (simp only: l3 a)
  have "retryOperation (getAllPhotos env ?k offset) MAX_RETRIES w0
          = (Inl (Some (Error (''Database error: '' @ m3))), wc)"
    using t1 t2 by (simp add: MAX_RETRIES_def retryOperation_three g1 g2 g3)
  moreover have "wc = w0\<lparr>events := events w0 @ [?R m1, Sleep 2000, ?R m2, Sleep 4000, ?R m3]\<rparr>"
    by (simp add: wa_def wb_def wc_def sleep_def emit_def)
  ultimately show "all_photos_loop (Suc n) env config opts offset overall w0 =
            (Some 1, w0\<lparr>events := events w0 @ [?R m1, Sleep 2000, ?R m2, Sleep 4000, ?R m3]\<rparr>)"
    using a by simp
qed

lemma failed_fetch_aborts_after_three_attempts:
  "\<not> limit_reached all_photos no_results
   \<and> fault_at timeout_env (length (events stored_world)) = Some ''canceling statement due to statement timeout''
   \<and> includes_str ''canceling statement due to statement timeout'' ''timeout''
   \<and> all_photos_loop (Suc 0) timeout_env THUMBNAIL_CONFIG all_photos 0 no_results stored_world =
        (Some 1,
         stored_world\<lparr>events := events stored_world @
            [Request (Select_range (nat (fetchSize_of all_photos no_results)) 0)
               (Some ''canceling statement due to statement timeout''), Sleep 2000,
             Request (Select_range (nat (fetchSize_of all_photos no_results)) 0)
               (Some ''canceling statement due to statement timeout''), Sleep 4000,
             Request (Select_range (nat (fetchSize_of all_photos no_results)) 0)
               (Some ''canceling statement due to statement timeout'')]\<rparr>)"
proof -
  have h1: "\<not> limit_reached all_photos no_results"
    by (simp add: limit_reached_def all_photos_def limit_truthy_def)
  have h2: "fault_at timeout_env n = Some ''canceling statement due to statement timeout''" for n
    by (simp add: timeout_env_def)
  have h3: "includes_str ''canceling statement due to statement timeout'' ''timeout''"
    by simp
  from retry_backs_off_and_failed_fetch_aborts [of _ _ all_photos no_results timeout_env stored_world
              "''canceling statement due to statement timeout''"
              "''canceling statement due to statement timeout''"
              "''canceling statement due to statement timeout''" 0 THUMBNAIL_CONFIG 0]
       h1 h2 h3
  show ?thesis by blast
qed





section \<open>The storage migration\<close>

lemma to_migrate_result:
  assumes "getPhotosToMigrate env n lastId w = (Inr batch, w')"
  shows "batch = take n (sort_key id_col
                  (filter (\<lambda>r. storage_path r = None \<and> image_data r \<noteq> None \<and> lastId < id_col r) (photos w)))"
    and "w' = emit (Request (Select_to_migrate n lastId) None) w"
  using assms
  by (auto simp: getPhotosToMigrate_def db_select_to_migrate_def split: option.splits)

lemma to_migrate_props:
  assumes "getPhotosToMigrate env n lastId w = (Inr batch, w')"
  shows "\<forall>p\<in>set batch. p \<in> set (photos w) \<and> storage_path p = None \<and> image_data p \<noteq> None \<and> lastId < id_col p"
    and "sorted (map id_col batch)"
    and "length batch \<le> n"
    and "distinct (map id_col (photos w)) \<longrightarrow> distinct (map id_col batch)"
proof -
  let ?f = "filter (\<lambda>r. storage_path r = None \<and> image_data r \<noteq> None \<and> lastId < id_col r) (photos w)"
  note b = to_migrate_result(1) [OF assms]
  have "set batch \<subseteq> set (sort_key id_col ?f)"
    unfolding b by (rule set_take_subset)
  then show "\<forall>p\<in>set batch. p \<in> set (photos w) \<and> storage_path p = None \<and> image_data p \<noteq> None \<and> lastId < id_col p"
    by auto
  have "sorted (map id_col (sort_key id_col ?f))" by (rule sorted_sort_key)
  then show "sorted (map id_col batch)"
    unfolding b by (simp add: take_map [symmetric] sorted_wrt_take)
  show "length batch \<le> n" unfolding b by simp
  show "distinct (map id_col (photos w)) \<longrightarrow> distinct (map id_col batch)"
  proof
    assume "distinct (map id_col (photos w))"
    then have "distinct (map id_col ?f)" by (rule distinct_map_filter)
    then have "distinct (map id_col (sort_key id_col ?f))"
      by (simp add: distinct_map)
    then show "distinct (map id_col batch)"
      unfolding b by (simp add: take_map [symmetric] distinct_take)
  qed
qed

lemma process_photos_saves:
  assumes "process_photos env opts batch vars m = (vars', m')" and "batch \<noteq> []"
  shows "progress_of m' = Saved vars' \<and> lastProcessedId vars' = id_col (last batch)"
  using assms
proof (induction batch arbitrary: vars m)
  case Nil
  then show ?case by simp
next
  case (Cons photo rest)
  obtain result w1 where pp: "processPhoto env opts photo (backend m) = (result, w1)"
    by (cases "processPhoto env opts photo (backend m)") auto
  define vars1 where "vars1 = vars\<lparr>processed_count := processed_count vars + 1,
                          successful_count := (case result of Migrated x \<Rightarrow> successful_count vars + 1
                                               | _ \<Rightarrow> successful_count vars),
                          failed_count := (case result of Failed x \<Rightarrow> failed_count vars + 1
                                           | _ \<Rightarrow> failed_count vars),
                          lastProcessedId := id_col photo\<rparr>"
  define m1 where "m1 = saveProgress vars1 (m\<lparr>backend := w1\<rparr>)\<lparr>backend := sleep 100 w1\<rparr>"
  have rec: "process_photos env opts rest vars1 m1 = (vars', m')"
    using Cons.prems(1) pp by (simp add: vars1_def m1_def Let_def)
  show ?case
  proof (cases rest)
    case Nil
    with rec show ?thesis by (auto simp: m1_def saveProgress_def vars1_def)
  next
    case (Cons a list)
    with Cons.IH [OF rec] show ?thesis by simp
  qed
qed

lemma migrate_batch_continue:
  assumes "migrate_batch env opts (vars, m) = Continue (vars', m')"
  shows "\<exists>batch w1. getPhotosToMigrate env (batchSize opts) (lastProcessedId vars) (backend m) = (Inr batch, w1)
           \<and> batch \<noteq> [] \<and> progress_of m' = Saved vars'
           \<and> lastProcessedId vars' = id_col (last batch)"
proof -
  obtain r w1 where g: "getPhotosToMigrate env (batchSize opts) (lastProcessedId vars) (backend m) = (r, w1)"
    by (cases "getPhotosToMigrate env (batchSize opts) (lastProcessedId vars) (backend m)") auto
  show ?thesis
  proof (cases r)
    case (Inl e)
    with assms g show ?thesis by (simp add: migrate_batch_def)
  next
    case (Inr batch)
    show ?thesis
    proof (cases "batch = []")
      case True
      with assms g Inr show ?thesis by (simp add: migrate_batch_def)
    next
      case False
      obtain v2 m2 where pp: "process_photos env opts batch vars (m\<lparr>backend := w1\<rparr>) = (v2, m2)"
        by (cases "process_photos env opts batch vars (m\<lparr>backend := w1\<rparr>)") auto
      with assms g Inr False have "vars' = v2" "m' = m2\<lparr>backend := sleep 1000 (backend m2)\<rparr>"
        by (simp_all add: migrate_batch_def)
      with process_photos_saves [OF pp False] g Inr False show ?thesis by simp
    qed
  qed
qed

lemma turn_starts_in_sync:
  assumes "turn_starts env opts (loadProgress env m0, m0\<lparr>backend := w1\<rparr>) st"
  shows "lastProcessedId (fst st) = lastProcessedId (loadProgress env (snd st))"
  using assms
proof (induction rule: turn_starts.induct)
  case first_turn
  show ?case by (simp add: loadProgress_def split: progress_file.splits)
next
  case (next_turn st st')
  obtain vars m vars' m' where s: "st = (vars, m)" "st' = (vars', m')"
    by (cases st, cases st') auto
  from migrate_batch_continue [OF next_turn.hyps(2) [unfolded s]]
  have "progress_of m' = Saved vars'" by blast
  then show ?case by (simp add: s loadProgress_def)
qed

text \<open>The loop of \<open>runMigration\<close> runs its turns from such states: the turn it ends on
  starts in one of them.\<close>

lemma turn_starts_trans:
  assumes "migrate_batch env opts st0 = Continue st1" and "turn_starts env opts st1 st"
  shows "turn_starts env opts st0 st"
  using assms(2)
proof (induction rule: turn_starts.induct)
  case first_turn
  show ?case by (rule turn_starts.next_turn [OF turn_starts.first_turn assms(1)])
next
  case (next_turn st st')
  then show ?case by (blast intro: turn_starts.next_turn)
qed

lemma migration_loop_turns:
  assumes "migration_loop n env opts st0 = Some r"
  shows "\<exists>st. turn_starts env opts st0 st
           \<and> (\<exists>st'. (r = Finished st' \<or> r = Aborted st') \<and> migrate_batch env opts st = r)"
  using assms
proof (induction n arbitrary: st0)
  case 0
  then show ?case by simp
next
  case (Suc n)
  show ?case
  proof (cases "migrate_batch env opts st0")
    case (Continue st1)
    with Suc.prems have "migration_loop n env opts st1 = Some r" by simp
    from Suc.IH [OF this] obtain st where "turn_starts env opts st1 st"
      "\<exists>st'. (r = Finished st' \<or> r = Aborted st') \<and> migrate_batch env opts st = r" by blast
    with turn_starts_trans [OF Continue] show ?thesis by blast
  next
    case (Finished st')
    with Suc.prems have "r = Finished st'" by simp
    with Finished turn_starts.first_turn [of env opts st0] show ?thesis by blast
  next
    case (Aborted st')
    with Suc.prems have "r = Aborted st'" by simp
    with Aborted turn_starts.first_turn [of env opts st0] show ?thesis by blast
  qed
qed

lemma skip_migrated:
  assumes "storage_path photo = Some p" and "p \<noteq> []"
  shows "processPhoto env opts photo w = (Skipped ''Already migrated'', w)"
  using assms by (simp add: processPhoto_def)



lemma run_query:
  "getPhotosToMigrate example_env 10 0 two_photo_world =
     (Inr [unmigrated_row, unmigrated_row\<lparr>id_col := 2\<rparr>],
      two_photo_world\<lparr>events := [Request (Select_to_migrate 10 0) None]\<rparr>)"
  by (simp add: getPhotosToMigrate_def db_select_to_migrate_def example_env_def fault_def
      two_photo_world_def unmigrated_row_def example_row_def new_row_def example_payload_def emit_def)

lemma sorted_le_last:
  "sorted (map f xs) \<Longrightarrow> x \<in> set xs \<Longrightarrow> f x \<le> (f (last xs) :: nat)"
  by (induction xs) (auto split: if_splits)

text \<open>What a run writes: an update never changes an id, \<open>processPhoto\<close> asks for at most
  one write of a \<open>storage_path\<close>, that of its photo, and the writes of the turns of a run
  come in ascending order of id.\<close>

lemma path_updates_append: "path_updates (xs @ ys) = path_updates xs @ path_updates ys"
  by (induction xs rule: path_updates.induct) simp_all

lemma fold_assign_id: "id_col (fold assign as row) = id_col row"
proof (induction as arbitrary: row)
  case Nil
  show ?case by simp
next
  case (Cons a as)
  have "id_col (assign a row) = id_col row" by (cases a) simp_all
  with Cons show ?case by simp
qed

lemma db_update_ids:
  assumes "db_update env i as w = (r, w')"
  shows "map id_col (photos w') = map id_col (photos w)"
  by (rule db_update_frame [OF assms]) (simp add: updated_row_def fold_assign_id)

lemma uploadToStorage_effect:
  assumes "uploadToStorage env b fname w = (r, w')"
  shows "photos w' = photos w \<and> (\<exists>es. events w' = events w @ es \<and> path_updates es = [])"
  using assms
  by (auto simp: uploadToStorage_def storage_upload_def split: sum.splits option.splits if_splits)

lemma updatePhotoStoragePath_effect:
  assumes "updatePhotoStoragePath env i p w = (r, w')"
  shows "map id_col (photos w') = map id_col (photos w)
         \<and> (\<exists>es. events w' = events w @ es \<and> path_updates es = [i])"
proof -
  obtain r0 where u: "db_update env i [Set_storage_path (Some p)] w = (r0, w')"
    using assms by (auto simp: updatePhotoStoragePath_def split: prod.splits sum.splits)
  from db_update_ids [OF u] db_update_effect(1) [OF u] show ?thesis by simp
qed

lemma cleanupBase64Data_effect:
  assumes "cleanupBase64Data env i w = (r, w')"
  shows "map id_col (photos w') = map id_col (photos w)
         \<and> (\<exists>es. events w' = events w @ es \<and> path_updates es = [])"
proof -
  obtain r0 where u: "db_update env i [Set_image_data None, Set_thumbnail_data None] w = (r0, w')"
    using assms by (auto simp: cleanupBase64Data_def split: prod.splits sum.splits)
  from db_update_ids [OF u] db_update_effect(1) [OF u] show ?thesis by simp
qed

lemma processPhoto_path_updates:
  assumes "processPhoto env opts photo w = (r, w')"
  shows "map id_col (photos w') = map id_col (photos w)
         \<and> (\<exists>es. events w' = events w @ es
                \<and> (path_updates es = [] \<or> path_updates es = [id_col photo]))"
proof -
  let ?G = "\<lambda>w'. map id_col (photos w') = map id_col (photos w)
         \<and> (\<exists>es. events w' = events w @ es
                \<and> (path_updates es = [] \<or> path_updates es = [id_col photo]))"
  have base: "?G w" by simp
  show ?thesis
  proof (cases "truthy (storage_path photo) \<or> \<not> truthy (image_data photo) \<or> mig_dryRun opts")
    case True
    with assms have "w' = w" by (auto simp: processPhoto_def split: if_splits)
    with base show ?thesis by simp
  next
    case False
    show ?thesis
    proof (cases "createUniqueFilename env photo")
      case (Inl e)
      with assms False have "w' = w" by (auto simp: processPhoto_def)
      with base show ?thesis by simp
    next
      case (Inr fname)
      obtain r1 w1 where up: "uploadToStorage env (case image_data photo of None \<Rightarrow> [] | Some d \<Rightarrow> d) fname w = (r1, w1)"
        by (cases "uploadToStorage env (case image_data photo of None \<Rightarrow> [] | Some d \<Rightarrow> d) fname w") auto
      from uploadToStorage_effect [OF up] obtain es1 where
        e1: "photos w1 = photos w" "events w1 = events w @ es1" "path_updates es1 = []" by blast
      show ?thesis
      proof (cases r1)
        case (Inl e)
        with assms False Inr up have "w' = w1" by (auto simp: processPhoto_def)
        with e1 show ?thesis by simp
      next
        case (Inr storagePath)
        note sp = this
        obtain r2 w2 where ud: "updatePhotoStoragePath env (id_col photo) storagePath w1 = (r2, w2)"
          by (cases "updatePhotoStoragePath env (id_col photo) storagePath w1") auto
        from updatePhotoStoragePath_effect [OF ud] obtain es2 where
          e2: "map id_col (photos w2) = map id_col (photos w1)" "events w2 = events w1 @ es2"
            "path_updates es2 = [id_col photo]" by blast
        have g2: "?G w2" using e1 e2 by (simp add: path_updates_append)
        show ?thesis
        proof (cases "(\<exists>e. r2 = Inl e) \<or> \<not> cleanup opts")
          case True
          with assms False \<open>createUniqueFilename env photo = Inr fname\<close> up sp ud
          have "w' = w2" by (auto simp: processPhoto_def split: sum.splits)
          with g2 show ?thesis by simp
        next
          case False
          note nf = this
          obtain r3 w3 where cl: "cleanupBase64Data env (id_col photo) w2 = (r3, w3)"
            by (cases "cleanupBase64Data env (id_col photo) w2") auto
          from cleanupBase64Data_effect [OF cl] obtain es3 where
            e3: "map id_col (photos w3) = map id_col (photos w2)" "events w3 = events w2 @ es3"
              "path_updates es3 = []" by blast
          from assms \<open>\<not> (truthy (storage_path photo) \<or> \<not> truthy (image_data photo) \<or> mig_dryRun opts)\<close>
            \<open>createUniqueFilename env photo = Inr fname\<close> up sp ud nf cl
          have "w' = w3" by (auto simp: processPhoto_def split: sum.splits)
          with e1 e2 e3 show ?thesis by (simp add: path_updates_append)
        qed
      qed
    qed
  qed
qed


lemma process_photos_path_updates:
  assumes "process_photos env opts batch vars m = (vars', m')"
    and "sorted_wrt (<) (map id_col batch)"
  shows "map id_col (photos (backend m')) = map id_col (photos (backend m))
         \<and> (\<exists>es. events (backend m') = events (backend m) @ es
                \<and> sorted_wrt (<) (path_updates es)
                \<and> set (path_updates es) \<subseteq> id_col ` set batch)"
  using assms
proof (induction batch arbitrary: vars m)
  case Nil
  then show ?case by simp
next
  case (Cons photo rest)
  obtain result w1 where pp: "processPhoto env opts photo (backend m) = (result, w1)"
    by (cases "processPhoto env opts photo (backend m)") auto
  define vars1 where "vars1 = vars\<lparr>processed_count := processed_count vars + 1,
                          successful_count := (case result of Migrated x \<Rightarrow> successful_count vars + 1
                                               | _ \<Rightarrow> successful_count vars),
                          failed_count := (case result of Failed x \<Rightarrow> failed_count vars + 1
                                           | _ \<Rightarrow> failed_count vars),
                          lastProcessedId := id_col photo\<rparr>"
  define m1 where "m1 = saveProgress vars1 (m\<lparr>backend := w1\<rparr>)\<lparr>backend := sleep 100 w1\<rparr>"
  have rec: "process_photos env opts rest vars1 m1 = (vars', m')"
    using Cons.prems(1) pp by (simp add: vars1_def m1_def Let_def)
  from Cons.prems(2) have srt: "sorted_wrt (<) (map id_col rest)"
    and above: "\<forall>p\<in>set rest. id_col photo < id_col p" by simp_all
  from processPhoto_path_updates [OF pp] obtain es1 where
    e1: "map id_col (photos w1) = map id_col (photos (backend m))"
      "events w1 = events (backend m) @ es1"
      "path_updates es1 = [] \<or> path_updates es1 = [id_col photo]" by blast
  from Cons.IH [OF rec srt] obtain es2 where
    e2: "map id_col (photos (backend m')) = map id_col (photos (backend m1))"
      "events (backend m') = events (backend m1) @ es2"
      "sorted_wrt (<) (path_updates es2)"
      "set (path_updates es2) \<subseteq> id_col ` set rest" by blast
  have b1: "photos (backend m1) = photos w1" "events (backend m1) = events w1 @ [Sleep 100]"
    by (simp_all add: m1_def sleep_def)
  let ?es = "es1 @ Sleep 100 # es2"
  have ev: "events (backend m') = events (backend m) @ ?es"
    using e1(2) e2(2) b1(2) by simp
  have pu: "path_updates ?es = path_updates es1 @ path_updates es2"
    by (simp add: path_updates_append)
  have s: "sorted_wrt (<) (path_updates ?es)"
    unfolding pu using e1(3) e2(3,4) above by (auto simp: sorted_wrt_append)
  have sub: "set (path_updates ?es) \<subseteq> id_col ` set (photo # rest)"
    unfolding pu using e1(3) e2(4) by auto
  have "map id_col (photos (backend m')) = map id_col (photos (backend m))"
    using e1(1) e2(1) b1(1) by simp
  with ev s sub show ?case by blast
qed

lemma getPhotosToMigrate_effect:
  assumes "getPhotosToMigrate env n lastId w = (r, w')"
  shows "photos w' = photos w \<and> (\<exists>es. events w' = events w @ es \<and> path_updates es = [])"
  using assms
  by (auto simp: getPhotosToMigrate_def db_select_to_migrate_def split: option.splits)

lemma migrate_batch_path_updates:
  assumes "migrate_batch env opts (vars, m) = Continue (vars', m')"
    and "distinct (map id_col (photos (backend m)))"
  shows "map id_col (photos (backend m')) = map id_col (photos (backend m))
         \<and> lastProcessedId vars \<le> lastProcessedId vars'
         \<and> (\<exists>es. events (backend m') = events (backend m) @ es
                \<and> sorted_wrt (<) (path_updates es)
                \<and> (\<forall>i\<in>set (path_updates es). lastProcessedId vars < i \<and> i \<le> lastProcessedId vars'))"
proof -
  from migrate_batch_continue [OF assms(1)] obtain batch wq where
    q: "getPhotosToMigrate env (batchSize opts) (lastProcessedId vars) (backend m) = (Inr batch, wq)"
    and ne: "batch \<noteq> []" and l: "lastProcessedId vars' = id_col (last batch)"
    by blast
  obtain v2 m2 where pp: "process_photos env opts batch vars (m\<lparr>backend := wq\<rparr>) = (v2, m2)"
    by (cases "process_photos env opts batch vars (m\<lparr>backend := wq\<rparr>)") auto
  with assms(1) q ne have m': "m' = m2\<lparr>backend := sleep 1000 (backend m2)\<rparr>"
    by (simp add: migrate_batch_def)
  from getPhotosToMigrate_effect [OF q] obtain es0 where
    e0: "photos wq = photos (backend m)" "events wq = events (backend m) @ es0" "path_updates es0 = []"
    by blast
  have "sorted (map id_col batch)" "distinct (map id_col batch)"
    using to_migrate_props(2,4) [OF q] assms(2) by blast+
  then have ss: "sorted_wrt (<) (map id_col batch)"
    by (simp add: strict_sorted_iff)
  from process_photos_path_updates [OF pp ss] obtain es1 where
    e1: "map id_col (photos (backend m2)) = map id_col (photos wq)"
      "events (backend m2) = events wq @ es1"
      "sorted_wrt (<) (path_updates es1)"
      "set (path_updates es1) \<subseteq> id_col ` set batch" by auto
  have win: "\<forall>p\<in>set batch. lastProcessedId vars < id_col p \<and> id_col p \<le> lastProcessedId vars'"
    using to_migrate_props(1,2) [OF q] l sorted_le_last [of id_col batch] by auto
  let ?es = "es0 @ es1 @ [Sleep 1000]"
  have "events (backend m') = events (backend m) @ ?es"
    using e0(2) e1(2) by (simp add: m' sleep_def)
  moreover have pu: "path_updates ?es = path_updates es1"
    using e0(3) by (simp add: path_updates_append)
  moreover have "\<forall>i\<in>set (path_updates es1). lastProcessedId vars < i \<and> i \<le> lastProcessedId vars'"
    using e1(4) win by auto
  moreover have "map id_col (photos (backend m')) = map id_col (photos (backend m))"
    using e0(1) e1(1) by (simp add: m' sleep_def)
  moreover have "lastProcessedId vars \<le> lastProcessedId vars'"
    using win ne by (metis last_in_set l less_imp_le)
  ultimately show ?thesis using e1(3) by (metis (no_types, lifting))
qed

lemma turn_starts_path_updates:
  assumes "turn_starts env opts st0 st"
    and "distinct (map id_col (photos (backend (snd st0))))"
  shows "map id_col (photos (backend (snd st))) = map id_col (photos (backend (snd st0)))
         \<and> lastProcessedId (fst st0) \<le> lastProcessedId (fst st)
         \<and> (\<exists>es. events (backend (snd st)) = events (backend (snd st0)) @ es
                \<and> sorted_wrt (<) (path_updates es)
                \<and> (\<forall>i\<in>set (path_updates es). lastProcessedId (fst st0) < i \<and> i \<le> lastProcessedId (fst st)))"
  using assms(1)
proof (induction rule: turn_starts.induct)
  case first_turn
  show ?case by simp
next
  case (next_turn st st')
  obtain vars m vars' m' where s: "st = (vars, m)" "st' = (vars', m')"
    by (cases st, cases st') auto
  from next_turn.IH obtain es where
    ih: "map id_col (photos (backend m)) = map id_col (photos (backend (snd st0)))"
      "lastProcessedId (fst st0) \<le> lastProcessedId vars"
      "events (backend m) = events (backend (snd st0)) @ es"
      "sorted_wrt (<) (path_updates es)"
      "\<forall>i\<in>set (path_updates es). lastProcessedId (fst st0) < i \<and> i \<le> lastProcessedId vars"
    unfolding s by auto
  have d: "distinct (map id_col (photos (backend m)))"
    using ih(1) assms(2) by simp
  from migrate_batch_path_updates [OF next_turn.hyps(2) [unfolded s] d] obtain es' where
    st: "map id_col (photos (backend m')) = map id_col (photos (backend m))"
      "lastProcessedId vars \<le> lastProcessedId vars'"
      "events (backend m') = events (backend m) @ es'"
      "sorted_wrt (<) (path_updates es')"
      "\<forall>i\<in>set (path_updates es'). lastProcessedId vars < i \<and> i \<le> lastProcessedId vars'"
    by auto
  have ev: "events (backend m') = events (backend (snd st0)) @ (es @ es')"
    using ih(3) st(3) by simp
  have srt: "sorted_wrt (<) (path_updates (es @ es'))"
    using ih(4,5) st(4,5) by (fastforce simp: path_updates_append sorted_wrt_append)
  have win: "\<forall>i\<in>set (path_updates (es @ es')). lastProcessedId (fst st0) < i \<and> i \<le> lastProcessedId vars'"
    using ih(2,5) st(2,5) by (fastforce simp: path_updates_append)
  have "map id_col (photos (backend m')) = map id_col (photos (backend (snd st0)))"
    using ih(1) st(1) by simp
  moreover have "lastProcessedId (fst st0) \<le> lastProcessedId vars'"
    using ih(2) st(2) by simp
  ultimately show ?case unfolding s using ev srt win by (metis (no_types, lifting) fst_conv snd_conv)
qed


text \<open>
  Claim C7. (1) A batch query that succeeds returns rows of the table whose
  \<open>storage_path\<close> is null, whose \<open>image_data\<close> is not null and whose id is above the id
  it was given, in ascending order of id and at most \<open>batchSize\<close> of them, each row once
  when the ids of the table are distinct. (2) At the start of every turn of the loop of
  \<open>runMigration\<close> the id the query is given is the \<open>lastProcessedId\<close> that
  \<open>loadProgress\<close> reads from the progress file at that moment (0 when there is no
  readable file); and a turn that processes photos processes the rows of that query, all
  with ids above the recorded id, and leaves the largest of their ids recorded in the file,
  so that no later turn or resumed run is given any of them again. (3) \<open>processPhoto\<close>
  returns "Already migrated" for a photo whose \<open>storage_path\<close> is set (a non-empty
  text), and sends nothing. (4) When the ids of the table are distinct, the requests that
  write a \<open>storage_path\<close>, from the first turn of a run to the start of any of its
  turns, name strictly ascending ids, all above the id that the progress file recorded
  when the run began: no photo is written twice in a run, and a resumed run writes none
  at or below the recorded id.
\<close>

theorem migration_queries_resume_after_recorded_id:
  "(getPhotosToMigrate env n lastId w = (Inr batch, w') \<longrightarrow>
       (\<forall>p\<in>set batch. p \<in> set (photos w) \<and> storage_path p = None \<and> image_data p \<noteq> None
                        \<and> lastId < id_col p)
       \<and> sorted (map id_col batch) \<and> length batch \<le> n
       \<and> (distinct (map id_col (photos w)) \<longrightarrow> distinct (map id_col batch)))
   \<and> (turn_starts env opts (loadProgress env m0, m0\<lparr>backend := w1\<rparr>) (vars, m) \<longrightarrow>
        lastProcessedId vars = lastProcessedId (loadProgress env m)
        \<and> (\<forall>vars' m'. migrate_batch env opts (vars, m) = Continue (vars', m') \<longrightarrow>
              (\<exists>turn wq. getPhotosToMigrate env (batchSize opts) (lastProcessedId vars) (backend m)
                              = (Inr turn, wq)
                  \<and> turn \<noteq> []
                  \<and> (\<forall>p\<in>set turn. lastProcessedId vars < id_col p \<and> id_col p \<le> lastProcessedId vars')
                  \<and> lastProcessedId (loadProgress env m') = lastProcessedId vars')))
   \<and> (storage_path photo = Some sp \<and> sp \<noteq> [] \<longrightarrow>
        processPhoto env opts photo w2 = (Skipped ''Already migrated'', w2))
   \<and> (distinct (map id_col (photos w1))
        \<and> turn_starts env opts (loadProgress env m0, m0\<lparr>backend := w1\<rparr>) (vars, m) \<longrightarrow>
        (\<exists>es. events (backend m) = events w1 @ es
            \<and> sorted_wrt (<) (path_updates es)
            \<and> (\<forall>i\<in>set (path_updates es). lastProcessedId (loadProgress env m0) < i)))"
proof (intro conjI impI allI)
  assume a: "getPhotosToMigrate env n lastId w = (Inr batch, w')"
  show "\<forall>p\<in>set batch. p \<in> set (photos w) \<and> storage_path p = None \<and> image_data p \<noteq> None
                        \<and> lastId < id_col p"
    by (rule to_migrate_props(1) [OF a])
  show "sorted (map id_col batch)" by (rule to_migrate_props(2) [OF a])
  show "length batch \<le> n" by (rule to_migrate_props(3) [OF a])
  assume "distinct (map id_col (photos w))"
  with to_migrate_props(4) [OF a] show "distinct (map id_col batch)" by blast
next
  assume t: "turn_starts env opts (loadProgress env m0, m0\<lparr>backend := w1\<rparr>) (vars, m)"
  from turn_starts_in_sync [OF t]
  show "lastProcessedId vars = lastProcessedId (loadProgress env m)" by simp
next
  fix vars' m'
  assume c: "migrate_batch env opts (vars, m) = Continue (vars', m')"
  from migrate_batch_continue [OF c] obtain turn wq where
    q: "getPhotosToMigrate env (batchSize opts) (lastProcessedId vars) (backend m) = (Inr turn, wq)"
    and ne: "turn \<noteq> []" and sv: "progress_of m' = Saved vars'"
    and l: "lastProcessedId vars' = id_col (last turn)"
    by blast
  have "\<forall>p\<in>set turn. lastProcessedId vars < id_col p \<and> id_col p \<le> lastProcessedId vars'"
    using to_migrate_props(1,2) [OF q] l sorted_le_last [of id_col turn] by auto
  moreover have "lastProcessedId (loadProgress env m') = lastProcessedId vars'"
    using sv by (simp add: loadProgress_def)
  ultimately show "\<exists>turn wq. getPhotosToMigrate env (batchSize opts) (lastProcessedId vars) (backend m)
                              = (Inr turn, wq)
                  \<and> turn \<noteq> []
                  \<and> (\<forall>p\<in>set turn. lastProcessedId vars < id_col p \<and> id_col p \<le> lastProcessedId vars')
                  \<and> lastProcessedId (loadProgress env m') = lastProcessedId vars'"
    using q ne by blast
next
  assume "storage_path photo = Some sp \<and> sp \<noteq> []"
  then show "processPhoto env opts photo w2 = (Skipped ''Already migrated'', w2)"
    by (simp add: skip_migrated)
next
  assume "distinct (map id_col (photos w1))
        \<and> turn_starts env opts (loadProgress env m0, m0\<lparr>backend := w1\<rparr>) (vars, m)"
  then have d: "distinct (map id_col (photos (backend (snd (loadProgress env m0, m0\<lparr>backend := w1\<rparr>)))))"
    and t: "turn_starts env opts (loadProgress env m0, m0\<lparr>backend := w1\<rparr>) (vars, m)"
    by simp_all
  from turn_starts_path_updates [OF t d]
  show "\<exists>es. events (backend m) = events w1 @ es
            \<and> sorted_wrt (<) (path_updates es)
            \<and> (\<forall>i\<in>set (path_updates es). lastProcessedId (loadProgress env m0) < i)"
    by auto
qed

lemma run_turn:
  "\<exists>vars' m'. migrate_batch example_env example_migration
                 (loadProgress example_env fresh_machine, fresh_machine\<lparr>backend := two_photo_world\<rparr>)
               = Continue (vars', m') \<and> lastProcessedId vars' = 2
               \<and> path_updates (events (backend m')) = [1]"
  by (simp add: migrate_batch_def loadProgress_def fresh_machine_def getPhotosToMigrate_def
      db_select_to_migrate_def example_env_def fault_def example_migration_def
      two_photo_world_def unmigrated_row_def example_row_def new_row_def example_payload_def emit_def
      processPhoto_def createUniqueFilename_def or_default_def replace_colon_dot_def
      uploadToStorage_def base64ToBlob_def split_comma_1_def storage_upload_def
      updatePhotoStoragePath_def db_update_def updated_row_def now_def saveProgress_def sleep_def
      Let_def)

theorem migration_queries_witness:
  "getPhotosToMigrate example_env 10 0 two_photo_world =
     (Inr [unmigrated_row, unmigrated_row\<lparr>id_col := 2\<rparr>],
      two_photo_world\<lparr>events := [Request (Select_to_migrate 10 0) None]\<rparr>)
   \<and> storage_path unmigrated_row = None \<and> 0 < id_col unmigrated_row
   \<and> sorted (map id_col [unmigrated_row, unmigrated_row\<lparr>id_col := 2\<rparr>])
   \<and> turn_starts example_env example_migration
        (loadProgress example_env fresh_machine, fresh_machine\<lparr>backend := two_photo_world\<rparr>)
        (loadProgress example_env fresh_machine, fresh_machine\<lparr>backend := two_photo_world\<rparr>)
   \<and> (\<exists>vars' m'. migrate_batch example_env example_migration
                 (loadProgress example_env fresh_machine, fresh_machine\<lparr>backend := two_photo_world\<rparr>)
               = Continue (vars', m')
           \<and> lastProcessedId (loadProgress example_env m') = lastProcessedId vars')
   \<and> storage_path example_row = Some ''u1/2024-05-01T10-20-30-000Z_find.jpg''
   \<and> processPhoto example_env example_migration example_row two_photo_world
        = (Skipped ''Already migrated'', two_photo_world)
   \<and> distinct (map id_col (photos two_photo_world))
   \<and> (\<exists>vars' m' es. turn_starts example_env example_migration
          (loadProgress example_env fresh_machine, fresh_machine\<lparr>backend := two_photo_world\<rparr>)
          (vars', m')
        \<and> events (backend m') = events two_photo_world @ es
        \<and> path_updates es = [1] \<and> sorted_wrt (<) (path_updates es))"
proof -
  note inst = migration_queries_resume_after_recorded_id [of example_env 10 0 two_photo_world "[unmigrated_row, unmigrated_row\<lparr>id_col := 2\<rparr>]"
                    "two_photo_world\<lparr>events := [Request (Select_to_migrate 10 0) None]\<rparr>"
                    example_migration fresh_machine two_photo_world
                    "loadProgress example_env fresh_machine" "fresh_machine\<lparr>backend := two_photo_world\<rparr>"
                    example_row "''u1/2024-05-01T10-20-30-000Z_find.jpg''" two_photo_world]
  have h1: "getPhotosToMigrate example_env 10 0 two_photo_world =
     (Inr [unmigrated_row, unmigrated_row\<lparr>id_col := 2\<rparr>],
      two_photo_world\<lparr>events := [Request (Select_to_migrate 10 0) None]\<rparr>)"
    by (rule run_query)
  have h2: "turn_starts example_env example_migration
        (loadProgress example_env fresh_machine, fresh_machine\<lparr>backend := two_photo_world\<rparr>)
        (loadProgress example_env fresh_machine, fresh_machine\<lparr>backend := two_photo_world\<rparr>)"
    by (rule turn_starts.first_turn)
  have h3: "storage_path example_row = Some ''u1/2024-05-01T10-20-30-000Z_find.jpg''"
    "''u1/2024-05-01T10-20-30-000Z_find.jpg'' \<noteq> []"
    by (simp_all add: example_row_def new_row_def example_payload_def)
  from run_turn obtain vars' m' where h4: "migrate_batch example_env example_migration
                 (loadProgress example_env fresh_machine, fresh_machine\<lparr>backend := two_photo_world\<rparr>)
               = Continue (vars', m')"
    and h5: "path_updates (events (backend m')) = [1]" by blast
  have h6: "distinct (map id_col (photos two_photo_world))"
    by (simp add: two_photo_world_def unmigrated_row_def example_row_def new_row_def)
  have h7: "turn_starts example_env example_migration
        (loadProgress example_env fresh_machine, fresh_machine\<lparr>backend := two_photo_world\<rparr>)
        (vars', m')"
    by (rule turn_starts.next_turn [OF h2 h4])
  have h8: "events two_photo_world = []" by (simp add: two_photo_world_def)
  note later = migration_queries_resume_after_recorded_id [of example_env 10 0 two_photo_world "[unmigrated_row, unmigrated_row\<lparr>id_col := 2\<rparr>]"
                    "two_photo_world\<lparr>events := [Request (Select_to_migrate 10 0) None]\<rparr>"
                    example_migration fresh_machine two_photo_world
                    vars' m'
                    example_row "''u1/2024-05-01T10-20-30-000Z_find.jpg''" two_photo_world]
  from later h6 h7 obtain es where h9: "events (backend m') = events two_photo_world @ es"
    "sorted_wrt (<) (path_updates es)" by blast
  with h5 h8 have h10: "path_updates es = [1]" by simp
  have part: "\<exists>vars' m' es. turn_starts example_env example_migration
          (loadProgress example_env fresh_machine, fresh_machine\<lparr>backend := two_photo_world\<rparr>)
          (vars', m')
        \<and> events (backend m') = events two_photo_world @ es
        \<and> path_updates es = [1] \<and> sorted_wrt (<) (path_updates es)"
    using h7 h9 h10 by blast
  from inst h1 h2 h3 h4 h6 part show ?thesis by auto
qed

section \<open>The map position in the URL\<close>

lemma digit_val_digit_char [simp]: "digit_val (digit_char d) = Some (d mod 10)"
proof -
  have "(48 + d mod 10) mod 256 = 48 + d mod 10"
    by (rule mod_less) (use mod_less_divisor [of 10 d] in linarith)
  then show ?thesis
    by (simp add: digit_val_def digit_char_def Let_def)
qed

lemma is_digit_digit_char [simp]: "is_digit (digit_char d)"
  by (simp add: is_digit_def)

lemma is_digit_show_nat: "c \<in> set (show_nat n) \<Longrightarrow> is_digit c"
proof (induction n rule: show_nat.induct)
  case (1 n)
  then show ?case
    by (cases "n < 10") (auto simp: show_nat.simps [of n])
qed

lemma show_nat_nonempty [simp]: "show_nat n \<noteq> []"
  by (subst show_nat.simps) simp

lemma digits_val_snoc:
  "digits_val (xs @ [c]) = 10 * digits_val xs + (case digit_val c of None \<Rightarrow> 0 | Some d \<Rightarrow> d)"
  by (simp add: digits_val_def)

lemma digits_val_Nil [simp]: "digits_val [] = 0"
  by (simp add: digits_val_def)

lemma digits_val_append:
  "digits_val (xs @ ys) = digits_val xs * 10 ^ length ys + digits_val ys"
proof (induction ys rule: rev_induct)
  case Nil
  then show ?case by simp
next
  case (snoc c ys)
  have "digits_val (xs @ ys @ [c]) = digits_val ((xs @ ys) @ [c])" by simp
  also have "\<dots> = 10 * digits_val (xs @ ys) + (case digit_val c of None \<Rightarrow> 0 | Some d \<Rightarrow> d)"
    by (rule digits_val_snoc)
  finally show ?case
    by (simp add: snoc.IH digits_val_snoc algebra_simps)
qed

lemma digits_val_show_nat [simp]: "digits_val (show_nat n) = n"
proof (induction n rule: show_nat.induct)
  case (1 n)
  show ?case
  proof (cases "n < 10")
    case True
    then show ?thesis
      by (subst show_nat.simps) (simp add: digits_val_def)
  next
    case False
    with 1 have "digits_val (show_nat (n div 10)) = n div 10" by simp
    with False show ?thesis
      by (subst show_nat.simps) (simp add: digits_val_snoc)
  qed
qed

lemma digits_val_zeros [simp]: "digits_val (replicate k CHR ''0'' @ m) = digits_val m"
proof -
  have z: "digits_val [CHR ''0''] = 0"
    by (simp add: digits_val_def digit_val_def)
  have "digits_val (replicate k CHR ''0'') = 0"
  proof (induction k)
    case 0
    then show ?case by simp
  next
    case (Suc k)
    have "digits_val (replicate (Suc k) CHR ''0'') = digits_val ([CHR ''0''] @ replicate k CHR ''0'')"
      by simp
    also have "\<dots> = 0"
      by (simp only: digits_val_append z Suc.IH)
    finally show ?case .
  qed
  then show ?thesis by (simp add: digits_val_append)
qed


lemma is_digit_not_special:
  assumes "is_digit c"
  shows "c \<noteq> CHR ''-''" "c \<noteq> CHR ''+''" "c \<noteq> CHR ''.''" "c \<noteq> CHR ''I''" "\<not> is_space c"
  using assms
  by (auto simp: is_digit_def digit_val_def Let_def is_space_def split: if_splits)

lemma not_is_digit_dot [simp]: "\<not> is_digit CHR ''.''"
  by (simp add: is_digit_def digit_val_def)

lemma not_is_space_minus [simp]: "\<not> is_space CHR ''-''"
  by (simp add: is_space_def)

lemma parse_unsigned_decimal:
  assumes ip: "ip \<noteq> []" "\<forall>c\<in>set ip. is_digit c" and fp: "\<forall>c\<in>set fp. is_digit c"
  shows "takeWhile is_digit (ip @ CHR ''.'' # fp) = ip"
    and "dropWhile is_digit (ip @ CHR ''.'' # fp) = CHR ''.'' # fp"
    and "takeWhile is_digit fp = fp" and "dropWhile is_digit fp = []"
    and "strip_sign (ip @ CHR ''.'' # fp) = ip @ CHR ''.'' # fp"
    and "startsWith (ip @ CHR ''.'' # fp) ''-'' = False"
    and "startsWith (ip @ CHR ''.'' # fp) ''Infinity'' = False"
    and "dropWhile is_space (ip @ CHR ''.'' # fp) = ip @ CHR ''.'' # fp"
proof -
  from ip obtain d rest where d: "ip = d # rest" "is_digit d" by (cases ip) auto
  show "takeWhile is_digit (ip @ CHR ''.'' # fp) = ip"
    using ip(2) by (simp add: takeWhile_append2)
  show "dropWhile is_digit (ip @ CHR ''.'' # fp) = CHR ''.'' # fp"
    using ip(2) by (simp add: dropWhile_append2)
  show "takeWhile is_digit fp = fp" using fp by (simp add: takeWhile_eq_all_conv)
  show "dropWhile is_digit fp = []" using fp by (simp add: dropWhile_eq_Nil_conv)
  show "strip_sign (ip @ CHR ''.'' # fp) = ip @ CHR ''.'' # fp"
    using d is_digit_not_special(1,2) [of d] by (simp add: strip_sign_def)
  show "startsWith (ip @ CHR ''.'' # fp) ''-'' = False" using d is_digit_not_special(1) [of d] by simp
  show "startsWith (ip @ CHR ''.'' # fp) ''Infinity'' = False" using d is_digit_not_special(4) [of d] by simp
  show "dropWhile is_space (ip @ CHR ''.'' # fp) = ip @ CHR ''.'' # fp"
    using d is_digit_not_special(5) [of d] by simp
qed

lemma exponent_part_Nil [simp]: "exponent_part [] = 0"
  by (simp add: exponent_part_def)

lemma pow10_0 [simp]: "pow10 0 = 1"
  by (simp add: pow10_def)

lemma parseFloat_plain:
  assumes ip: "ip \<noteq> []" "\<forall>c\<in>set ip. is_digit c" and fp: "\<forall>c\<in>set fp. is_digit c"
  shows "parseFloat (Some (ip @ CHR ''.'' # fp))
         = Num (of_nat (digits_val ip) + of_nat (digits_val fp) / 10 ^ length fp)"
proof -
  note f = parse_unsigned_decimal [OF assms]
  have dot: "startsWith (CHR ''.'' # fp) ''.'' = True" "drop 1 (CHR ''.'' # fp) = fp" by simp_all
  show ?thesis
    unfolding parseFloat_def Let_def option.case
    by (simp only: f dot if_True if_False exponent_part_Nil pow10_0 ip(1) simp_thms mult_1_right)
qed

lemma parseFloat_minus:
  assumes ip: "ip \<noteq> []" "\<forall>c\<in>set ip. is_digit c" and fp: "\<forall>c\<in>set fp. is_digit c"
  shows "parseFloat (Some (CHR ''-'' # ip @ CHR ''.'' # fp))
         = Num (- (of_nat (digits_val ip) + of_nat (digits_val fp) / 10 ^ length fp))"
proof -
  note f = parse_unsigned_decimal [OF assms]
  have dot: "startsWith (CHR ''.'' # fp) ''.'' = True" "drop 1 (CHR ''.'' # fp) = fp" by simp_all
  have m: "dropWhile is_space (CHR ''-'' # ip @ CHR ''.'' # fp) = CHR ''-'' # ip @ CHR ''.'' # fp"
    "startsWith (CHR ''-'' # ip @ CHR ''.'' # fp) ''-'' = True"
    "strip_sign (CHR ''-'' # ip @ CHR ''.'' # fp) = ip @ CHR ''.'' # fp"
    by (simp_all add: strip_sign_def)
  show ?thesis
    unfolding parseFloat_def Let_def option.case
    by (simp only: f m dot if_True if_False exponent_part_Nil pow10_0 ip(1) simp_thms mult_1_right)
qed


lemma is_digit_zero [simp]: "is_digit CHR ''0''"
  by (simp add: is_digit_def digit_val_def)

lemma toFixed6_shape:
  assumes "\<bar>x\<bar> < 10 ^ 21"
  shows "\<exists>ip fp. toFixed big (Num x) 6 = (if x < 0 then ''-'' else []) @ ip @ CHR ''.'' # fp
           \<and> ip \<noteq> [] \<and> (\<forall>c\<in>set ip. is_digit c) \<and> (\<forall>c\<in>set fp. is_digit c) \<and> length fp = 6
           \<and> digits_val ip * 10 ^ 6 + digits_val fp = nat \<lfloor>\<bar>x\<bar> * 10 ^ 6 + 1 / 2\<rfloor>"
proof -
  define n where "n = nat \<lfloor>\<bar>x\<bar> * 10 ^ 6 + 1 / 2\<rfloor>"
  define m where "m = (if length (show_nat n) \<le> 6
                       then replicate (6 + 1 - length (show_nat n)) CHR ''0'' @ show_nat n
                       else show_nat n)"
  define ip where "ip = take (length m - 6) m"
  define fp where "fp = drop (length m - 6) m"
  have len: "7 \<le> length m" by (auto simp: m_def)
  have dig: "\<forall>c\<in>set m. is_digit c"
    by (auto simp: m_def dest: is_digit_show_nat)
  have val: "digits_val m = n" by (simp add: m_def)
  have split: "m = ip @ fp" by (simp add: ip_def fp_def)
  have "ip \<noteq> []" using len by (auto simp: ip_def)
  moreover have "\<forall>c\<in>set ip. is_digit c" "\<forall>c\<in>set fp. is_digit c"
    using dig split by auto
  moreover have lfp: "length fp = 6" using len by (simp add: fp_def)
  moreover have "digits_val ip * 10 ^ 6 + digits_val fp = n"
    using val digits_val_append [of ip fp] lfp split by simp
  moreover have "toFixed big (Num x) 6 = (if x < 0 then ''-'' else []) @ ip @ CHR ''.'' # fp"
  proof -
    have ng: "(10 ^ 21 \<le> \<bar>x\<bar>) = False" using assms by simp
    have six: "((6::nat) \<noteq> 0) = True" by simp
    show ?thesis
      unfolding ip_def fp_def m_def n_def toFixed_def Let_def number.case
      by (simp only: ng six if_False if_True simp_thms append_Cons append_Nil)
  qed
  ultimately show ?thesis unfolding n_def by blast
qed

lemma parseFloat_toFixed6:
  assumes "\<bar>x\<bar> < 10 ^ 21"
  shows "parseFloat (Some (toFixed big (Num x) 6)) = Num (round6 x)"
proof -
  from toFixed6_shape [OF assms, of big] obtain ip fp where
    t: "toFixed big (Num x) 6 = (if x < 0 then ''-'' else []) @ ip @ CHR ''.'' # fp"
    and ip: "ip \<noteq> []" "\<forall>c\<in>set ip. is_digit c" and fp: "\<forall>c\<in>set fp. is_digit c" "length fp = 6"
    and v: "digits_val ip * 10 ^ 6 + digits_val fp = nat \<lfloor>\<bar>x\<bar> * 10 ^ 6 + 1 / 2\<rfloor>"
    by blast
  have nonneg: "0 \<le> \<lfloor>\<bar>x\<bar> * 10 ^ 6 + 1 / 2\<rfloor>" by simp
  have "(of_nat (digits_val ip) :: rat) + of_nat (digits_val fp) / 10 ^ 6
          = of_nat (digits_val ip * 10 ^ 6 + digits_val fp) / 10 ^ 6"
    by (simp add: field_simps)
  also have "\<dots> = of_int \<lfloor>\<bar>x\<bar> * 10 ^ 6 + 1 / 2\<rfloor> / 10 ^ 6"
    using nonneg by (simp only: v of_nat_nat)
  finally have mv: "(of_nat (digits_val ip) :: rat) + of_nat (digits_val fp) / 10 ^ length fp
          = of_int \<lfloor>\<bar>x\<bar> * 10 ^ 6 + 1 / 2\<rfloor> / 10 ^ 6"
    by (simp add: fp(2))
  show ?thesis
  proof (cases "x < 0")
    case True
    then have "toFixed big (Num x) 6 = CHR ''-'' # ip @ CHR ''.'' # fp" by (simp add: t)
    then show ?thesis
      using True by (simp only: parseFloat_minus [OF ip fp(1)] mv) (simp add: round6_def)
  next
    case False
    then have "toFixed big (Num x) 6 = ip @ CHR ''.'' # fp" by (simp add: t)
    then show ?thesis
      using False by (simp only: parseFloat_plain [OF ip fp(1)] mv) (simp add: round6_def)
  qed
qed

lemma digits_no_hex_prefix:
  assumes "\<forall>c\<in>set s. is_digit c"
  shows "startsWith s ''0x'' = False" "startsWith s ''0X'' = False"
proof -
  have x: "\<not> is_digit CHR ''x''" "\<not> is_digit CHR ''X''"
    by (simp_all add: is_digit_def digit_val_def)
  show "startsWith s ''0x'' = False"
    using assms x by (cases s; cases "tl s") auto
  show "startsWith s ''0X'' = False"
    using assms x by (cases s; cases "tl s") auto
qed

lemma parseInt_show_nat:
  "parseInt (Some (show_nat n)) = Num (of_nat n)"
  "parseInt (Some (CHR ''-'' # show_nat n)) = Num (- of_nat n)"
proof -
  have dig: "\<forall>c\<in>set (show_nat n). is_digit c" by (auto dest: is_digit_show_nat)
  obtain d rest where d: "show_nat n = d # rest" "is_digit d"
    using dig by (cases "show_nat n") auto
  have f: "dropWhile is_space (show_nat n) = show_nat n"
    "startsWith (show_nat n) ''-'' = False"
    "strip_sign (show_nat n) = show_nat n"
    "takeWhile is_digit (show_nat n) = show_nat n"
    using d is_digit_not_special [of d] dig
    by (simp_all add: strip_sign_def takeWhile_eq_all_conv)
  have m: "dropWhile is_space (CHR ''-'' # show_nat n) = CHR ''-'' # show_nat n"
    "startsWith (CHR ''-'' # show_nat n) ''-'' = True"
    "strip_sign (CHR ''-'' # show_nat n) = show_nat n"
    by (simp_all add: strip_sign_def)
  note h = digits_no_hex_prefix [OF dig]
  show "parseInt (Some (show_nat n)) = Num (of_nat n)"
    unfolding parseInt_def Let_def option.case
    by (simp only: f h if_False simp_thms show_nat_nonempty digits_val_show_nat)
  show "parseInt (Some (CHR ''-'' # show_nat n)) = Num (- of_nat n)"
    unfolding parseInt_def Let_def option.case
    by (simp only: f m h if_False if_True simp_thms show_nat_nonempty digits_val_show_nat)
qed

lemma parseInt_number_text:
  assumes "\<bar>z\<bar> < 10 ^ 21"
  shows "parseInt (Some (number_text big (Num (of_int z)))) = Num (of_int z)"
proof -
  have small: "\<bar>of_int z :: rat\<bar> < 10 ^ 21"
    using assms by (metis of_int_abs of_int_less_numeral_power_cancel_iff)
  have fl: "nat \<lfloor>\<bar>of_int z :: rat\<bar>\<rfloor> = nat \<bar>z\<bar>"
    by (metis floor_of_int of_int_abs)
  have t: "number_text big (Num (of_int z)) = (if z < 0 then ''-'' else []) @ show_nat (nat \<bar>z\<bar>)"
    using small by (simp add: number_text_def fl)
  show ?thesis
  proof (cases "z < 0")
    case True
    then show ?thesis by (simp add: t parseInt_show_nat)
  next
    case False
    then show ?thesis by (simp add: t parseInt_show_nat)
  qed
qed

lemma params_get_set_same [simp]: "params_get k (params_set k v ps) = Some v"
  by (induction ps) (auto simp: params_get_def)

lemma params_get_set_other [simp]: "k' \<noteq> k \<Longrightarrow> params_get k' (params_set k v ps) = params_get k' ps"
proof (induction ps)
  case Nil
  then show ?case by (simp add: params_get_def)
next
  case (Cons a ps)
  obtain a1 a2 where a: "a = (a1, a2)" by (cases a)
  have filt: "map_of (filter (\<lambda>(x, y). x \<noteq> k) qs) k' = map_of qs k'" for qs
    using Cons.prems by (induction qs) auto
  show ?case
    using Cons by (auto simp: a params_get_def filt)
qed

lemma parse_null [simp]: "parseFloat None = NaN" "parseInt None = NaN"
  by (simp_all add: parseFloat_def parseInt_def Let_def is_space_def strip_sign_def is_digit_def
      digit_val_def)


lemma round6_is_nearest:
  "\<bar>round6 x - x\<bar> \<le> 1 / (2 * 10 ^ 6)" "\<exists>k::int. round6 x = of_int k / 10 ^ 6"
proof -
  define a where "a = \<bar>x\<bar> * 10 ^ 6"
  define f where "f = \<lfloor>a + 1 / 2\<rfloor>"
  have "of_int f \<le> a + 1 / 2" "a + 1 / 2 < of_int f + 1"
    unfolding f_def by linarith+
  then have d: "\<bar>of_int f - a\<bar> \<le> 1 / 2" by linarith
  have r: "round6 x = (if x < 0 then - 1 else 1) * of_int f / 10 ^ 6"
    by (simp add: round6_def f_def a_def)
  have "\<bar>round6 x - x\<bar> = \<bar>of_int f / 10 ^ 6 - \<bar>x\<bar>\<bar>"
    by (cases "x < 0") (simp_all add: r)
  also have "\<dots> = \<bar>of_int f - a\<bar> / 10 ^ 6"
    by (simp add: a_def field_simps abs_divide)
  also have "\<dots> \<le> (1 / 2) / 10 ^ 6"
    using d by (simp add: divide_right_mono)
  finally show "\<bar>round6 x - x\<bar> \<le> 1 / (2 * 10 ^ 6)" by simp
  show "\<exists>k::int. round6 x = of_int k / 10 ^ 6"
  proof (cases "x < 0")
    case True
    then have "round6 x = of_int (- f) / 10 ^ 6" by (simp add: r)
    then show ?thesis by blast
  next
    case False
    then have "round6 x = of_int f / 10 ^ 6" by (simp add: r)
    then show ?thesis by blast
  qed
qed

text \<open>
  Claim C8. For a finite latitude \<open>x\<close> and longitude \<open>y\<close> and an integer zoom \<open>z\<close>, all
  below \<open>10^21\<close> in magnitude (above which JavaScript prints numbers in exponent form),
  \<open>readURLParams\<close> after \<open>updateURL\<close> yields \<open>x\<close> and \<open>y\<close> rounded to six decimal
  places and the same zoom, whatever the query string held before; the rounded value is a
  multiple of \<open>10^-6\<close> at distance at most \<open>0.5 * 10^-6\<close> from the value written. And
  \<open>readURLParams\<close> returns null whenever one of \<open>lat\<close>, \<open>lng\<close>, \<open>zoom\<close> is absent or
  is read as \<open>NaN\<close> by \<open>parseFloat\<close> (\<open>parseInt\<close> for the zoom). Values are the exact
  values that the printed text denotes; JavaScript holds the double nearest to them.
\<close>

theorem url_round_trip_rounds_to_six_decimals:
  "(\<bar>x\<bar> < 10 ^ 21 \<and> \<bar>y\<bar> < 10 ^ 21 \<and> \<bar>z\<bar> < 10 ^ 21 \<longrightarrow>
      readURLParams (updateURL big (Num x) (Num y) (Num (of_int z)) search)
        = Some (Num (round6 x), Num (round6 y), Num (of_int z))
      \<and> \<bar>round6 x - x\<bar> \<le> 1 / (2 * 10 ^ 6) \<and> \<bar>round6 y - y\<bar> \<le> 1 / (2 * 10 ^ 6)
      \<and> (\<exists>k::int. round6 x = of_int k / 10 ^ 6) \<and> (\<exists>k::int. round6 y = of_int k / 10 ^ 6))
   \<and> (params_get ''lat'' search = None \<or> params_get ''lng'' search = None
        \<or> params_get ''zoom'' search = None
        \<or> isNaN (parseFloat (params_get ''lat'' search))
        \<or> isNaN (parseFloat (params_get ''lng'' search))
        \<or> isNaN (parseInt (params_get ''zoom'' search))
      \<longrightarrow> readURLParams search = None)"
proof (intro conjI impI)
  assume a: "\<bar>x\<bar> < 10 ^ 21 \<and> \<bar>y\<bar> < 10 ^ 21 \<and> \<bar>z\<bar> < 10 ^ 21"
  let ?u = "updateURL big (Num x) (Num y) (Num (of_int z)) search"
  have "params_get ''lat'' ?u = Some (toFixed big (Num x) 6)"
    "params_get ''lng'' ?u = Some (toFixed big (Num y) 6)"
    "params_get ''zoom'' ?u = Some (number_text big (Num (of_int z)))"
    by (simp_all add: updateURL_def)
  then show "readURLParams ?u = Some (Num (round6 x), Num (round6 y), Num (of_int z))"
    using a by (simp add: readURLParams_def Let_def parseFloat_toFixed6 parseInt_number_text)
  show "\<bar>round6 x - x\<bar> \<le> 1 / (2 * 10 ^ 6)" "\<bar>round6 y - y\<bar> \<le> 1 / (2 * 10 ^ 6)"
    by (rule round6_is_nearest(1))+
  show "\<exists>k::int. round6 x = of_int k / 10 ^ 6" "\<exists>k::int. round6 y = of_int k / 10 ^ 6"
    by (rule round6_is_nearest(2))+
next
  assume "params_get ''lat'' search = None \<or> params_get ''lng'' search = None
        \<or> params_get ''zoom'' search = None
        \<or> isNaN (parseFloat (params_get ''lat'' search))
        \<or> isNaN (parseFloat (params_get ''lng'' search))
        \<or> isNaN (parseInt (params_get ''zoom'' search))"
  then have "isNaN (parseFloat (params_get ''lat'' search))
        \<or> isNaN (parseFloat (params_get ''lng'' search))
        \<or> isNaN (parseInt (params_get ''zoom'' search))"
    by (elim disjE) simp_all
  then show "readURLParams search = None"
    by (auto simp: readURLParams_def Let_def)
qed

theorem url_round_trip_witness:
  "\<bar>585953125 / 10000000 :: rat\<bar> < 10 ^ 21 \<and> \<bar>- 250136 / 10000 :: rat\<bar> < 10 ^ 21 \<and> \<bar>15 :: int\<bar> < 10 ^ 21
   \<and> readURLParams (updateURL (\<lambda>v. ''1e+21'') (Num (585953125 / 10000000)) (Num (- 250136 / 10000))
         (Num (of_int 15)) [(''zoom'', ''3''), (''tab'', ''list''), (''zoom'', ''4'')])
       = Some (Num (round6 (585953125 / 10000000)), Num (round6 (- 250136 / 10000)), Num (of_int 15))
   \<and> params_get ''zoom'' [(''lat'', ''58.595313''), (''lng'', ''-25.013600'')] = None
   \<and> readURLParams [(''lat'', ''58.595313''), (''lng'', ''-25.013600'')] = None"
proof -
  have h1: "\<bar>585953125 / 10000000 :: rat\<bar> < 10 ^ 21 \<and> \<bar>- 250136 / 10000 :: rat\<bar> < 10 ^ 21
            \<and> \<bar>15 :: int\<bar> < 10 ^ 21"
    by simp
  have h2: "params_get ''zoom'' [(''lat'', ''58.595313''), (''lng'', ''-25.013600'')] = None"
    by (simp add: params_get_def)
  from url_round_trip_rounds_to_six_decimals [of "585953125 / 10000000" "- 250136 / 10000" 15 "\<lambda>v. ''1e+21''"
              "[(''zoom'', ''3''), (''tab'', ''list''), (''zoom'', ''4'')]"]
       h1
  have r1: "readURLParams (updateURL (\<lambda>v. ''1e+21'') (Num (585953125 / 10000000)) (Num (- 250136 / 10000))
         (Num (of_int 15)) [(''zoom'', ''3''), (''tab'', ''list''), (''zoom'', ''4'')])
       = Some (Num (round6 (585953125 / 10000000)), Num (round6 (- 250136 / 10000)), Num (of_int 15))"
    by blast
  from url_round_trip_rounds_to_six_decimals [of _ _ _ _ "[(''lat'', ''58.595313''), (''lng'', ''-25.013600'')]"] h2
  have r2: "readURLParams [(''lat'', ''58.595313''), (''lng'', ''-25.013600'')] = None"
    by blast
  from h1 h2 r1 r2 show ?thesis by blast
qed

end
